theory Spec2Isabelle
  imports Complex_Main "HOL-Library.Multiset"
begin

section \<open>The labeled-property graph and the Cypher statements the loader issues\<close>

text \<open>
  The knowledge graph of \<^verbatim>\<open>neo4j_knowledge_graph.py\<close> lives in the graph engine. The
  loader talks to it only through a handful of Cypher statements (\<^verbatim>\<open>UNWIND .. MERGE ..
  SET\<close> for nodes, \<^verbatim>\<open>UNWIND .. MATCH .. MATCH .. MERGE .. SET\<close> for relationships), so the
  store is modelled as the two lists those statements read and write: the nodes, each
  identified by its label and the value of its identity property, and the relationships,
  each identified by its type and its two end nodes. Lists (not sets) are used so that a
  duplicate node or a duplicate relationship is a state the model can express.
\<close>

datatype label = Entity | Person | Company | Policy

datatype rel_type = REPORTS_TO | WORKS_FOR | PARTNERS_WITH | ALIGNED_TO

text \<open>
  Property values. \<open>VNaN\<close> is the floating-point not-a-number that pandas uses for a
  missing cell and that the driver ships as a float; \<open>VTime\<close> is a value of
  \<^verbatim>\<open>datetime()\<close>. Numbers are exact rationals: no claim below depends on rounding.
\<close>

datatype pval = VStr string | VInt int | VFlt rat | VNaN | VTime nat

type_synonym props = "string \<rightharpoonup> pval"

type_synonym node_ref = "label \<times> string"

type_synonym rel_key = "rel_type \<times> node_ref \<times> node_ref"

record graph =
  nodes :: "(node_ref \<times> props) list"
  rels :: "(rel_key \<times> props) list"

definition empty_graph :: graph where
  "empty_graph = \<lparr>nodes = [], rels = []\<rparr>"

definition node_keys :: "graph \<Rightarrow> node_ref list" where
  "node_keys g = map fst (nodes g)"

definition rel_keys :: "graph \<Rightarrow> rel_key list" where
  "rel_keys g = map fst (rels g)"

text \<open>The properties of the first node with a given identity, if there is one.\<close>

definition node_props :: "graph \<Rightarrow> node_ref \<Rightarrow> props option" where
  "node_props g k = map_of (nodes g) k"

definition rel_props :: "graph \<Rightarrow> rel_key \<Rightarrow> props option" where
  "rel_props g k = map_of (rels g) k"

text \<open>
  \<^verbatim>\<open>MERGE (n:L {key: k}) SET n.a = .., n.b = ..\<close>: every node with that label and key
  gets the \<^verbatim>\<open>SET\<close> clause applied; when there is none, one node carrying the key
  property is created first.
\<close>

definition merge_node :: "label \<Rightarrow> string \<Rightarrow> string \<Rightarrow> (props \<Rightarrow> props) \<Rightarrow> graph \<Rightarrow> graph" where
  "merge_node l kname k upd g =
     (if (l, k) \<in> set (node_keys g)
      then g\<lparr>nodes := map (\<lambda>(r, p). if r = (l, k) then (r, upd p) else (r, p)) (nodes g)\<rparr>
      else g\<lparr>nodes := nodes g @ [((l, k), upd [kname \<mapsto> VStr k])]\<rparr>)"

text \<open>
  \<^verbatim>\<open>MATCH (a:LA {..}) MATCH (b:LB {..}) MERGE (a)-[r:T]->(b) SET r.x = ..\<close>: nothing
  happens (the row is dropped from the result) unless both end nodes are found; an
  absent end-node key (a missing cell) matches no node. Otherwise the relationship is
  created when there is none of that type between the two nodes, and the \<^verbatim>\<open>SET\<close>
  clause is applied.
\<close>

definition has_node :: "graph \<Rightarrow> label \<Rightarrow> string option \<Rightarrow> bool" where
  "has_node g l k = (case k of None \<Rightarrow> False | Some i \<Rightarrow> (l, i) \<in> set (node_keys g))"

definition merge_rel :: "rel_type \<Rightarrow> node_ref \<Rightarrow> node_ref \<Rightarrow> (props \<Rightarrow> props) \<Rightarrow> graph \<Rightarrow> graph" where
  "merge_rel t a b upd g =
     (if a \<in> set (node_keys g) \<and> b \<in> set (node_keys g)
      then (if (t, a, b) \<in> set (rel_keys g)
            then g\<lparr>rels := map (\<lambda>(r, p). if r = (t, a, b) then (r, upd p) else (r, p)) (rels g)\<rparr>
            else g\<lparr>rels := rels g @ [((t, a, b), upd Map.empty)]\<rparr>)
      else g)"

definition match_merge_rel ::
  "rel_type \<Rightarrow> label \<Rightarrow> string option \<Rightarrow> label \<Rightarrow> string option \<Rightarrow> (props \<Rightarrow> props) \<Rightarrow> graph \<Rightarrow> graph" where
  "match_merge_rel t la a lb b upd g =
     (case (a, b) of
        (Some x, Some y) \<Rightarrow> merge_rel t (la, x) (lb, y) upd g
      | _ \<Rightarrow> g)"

text \<open>The rows of a relationship statement that survive both \<^verbatim>\<open>MATCH\<close> clauses
  (what \<^verbatim>\<open>RETURN count(r)\<close> counts).\<close>

definition matched :: "graph \<Rightarrow> label \<Rightarrow> string option \<Rightarrow> label \<Rightarrow> string option \<Rightarrow> bool" where
  "matched g la a lb b = (has_node g la a \<and> has_node g lb b)"

text \<open>
  A cell of a text column. A missing cell is pandas' NaN, which \<^verbatim>\<open>to_dict('records')\<close>
  hands to the driver as a float, so the property is set to NaN. (A cell holding
  Python's \<^verbatim>\<open>None\<close> would leave the property unset instead; no statement below reads a
  property of a missing text cell.)
\<close>

fun sval :: "string option \<Rightarrow> pval option" where
  "sval None = Some VNaN"
| "sval (Some s) = Some (VStr s)"

text \<open>\<^verbatim>\<open>toFloat\<close> of a cell of a numeric column.\<close>

fun toFloat :: "rat option \<Rightarrow> pval option" where
  "toFloat None = Some VNaN"
| "toFloat (Some q) = Some (VFlt q)"

section \<open>Logging\<close>

text \<open>A log record: its level, the message template and the number formatted into it.\<close>

datatype level = INFO | WARNING

type_synonym log_entry = "level \<times> string \<times> nat option"

record state =
  gr :: graph
  logs :: "log_entry list"

definition log_msg :: "level \<Rightarrow> string \<Rightarrow> nat option \<Rightarrow> state \<Rightarrow> state" where
  "log_msg lv m n st = st\<lparr>logs := logs st @ [(lv, m, n)]\<rparr>"

definition warnings :: "state \<Rightarrow> log_entry list" where
  "warnings st = filter (\<lambda>e. fst e = WARNING) (logs st)"

section \<open>The tabular batches\<close>

text \<open>
  One record per row of a batch. The identity column of each kind is a plain string:
  the model covers batches whose identity keys are present. Every other text cell may be
  missing (\<open>None\<close>), and so may the foreign keys \<open>parent_org\<close> and \<open>entity_id\<close>.
\<close>

record entity_row =
  ent_entity_id :: string
  ent_name :: "string option"
  ent_entity_type :: "string option"
  ent_mandate :: "string option"
  ent_state :: "string option"
  ent_latitude :: "rat option"
  ent_longitude :: "rat option"
  ent_parent_org :: "string option"
  ent_policy_alignment :: "string option"

record person_row =
  per_person_id :: string
  per_name :: "string option"
  per_title :: "string option"
  per_entity_id :: "string option"
  per_role_type :: "string option"
  per_focus_area :: "string option"
  per_confidence_score :: "rat option"
  per_email :: "string option"
  per_source :: "string option"

text \<open>
  A cell of a column that is meant to be numeric but may hold text (the contract value
  and year of a partner row): missing, a number, or a string.
\<close>

datatype cell = CNaN | CNum rat | CStr string

record partner_row =
  par_partner_id :: string
  par_company_name :: "string option"
  par_entity_id :: "string option"
  par_relationship_type :: "string option"
  par_contract_value_rm :: cell
  par_contract_year :: cell
  par_focus_area :: "string option"
  par_procurement_stage :: "string option"

section \<open>Python string helpers\<close>

text \<open>
  Characters are the code points below 256. \<open>isspace\<close> is Python's
  \<^verbatim>\<open>str.isspace\<close> on them; \<open>strip\<close> is \<^verbatim>\<open>str.strip()\<close>; \<open>split_on c\<close> is
  \<^verbatim>\<open>str.split(c)\<close> for a one-character separator (it never returns the empty list:
  the empty string splits into one empty piece).
\<close>

definition isspace :: "char \<Rightarrow> bool" where
  "isspace c = (let n = (of_char c :: nat)
                in (9 \<le> n \<and> n \<le> 13) \<or> (28 \<le> n \<and> n \<le> 32) \<or> n = 133 \<or> n = 160)"

definition strip :: "string \<Rightarrow> string" where
  "strip s = rev (dropWhile isspace (rev (dropWhile isspace s)))"

fun split_on :: "char \<Rightarrow> string \<Rightarrow> string list" where
  "split_on c [] = [[]]"
| "split_on c (x # xs) =
     (if x = c then [] # split_on c xs
      else (case split_on c xs of w # ws \<Rightarrow> (x # w) # ws | [] \<Rightarrow> [[x]]))"

section \<open>The ingestion operations of \<^verbatim>\<open>GovernmentKnowledgeGraph\<close>\<close>

text \<open>
  Every statement stamps \<^verbatim>\<open>created_at = datetime()\<close>. The time of a statement is an
  input of the model: an import operation takes a function \<open>now\<close> giving the time of
  its first, second, ... statement.
\<close>

definition stamp :: "nat \<Rightarrow> props \<Rightarrow> props" where
  "stamp t p = p(''created_at'' := Some (VTime t))"

subsection \<open>\<^verbatim>\<open>import_entities\<close>\<close>

definition entity_set :: "nat \<Rightarrow> entity_row \<Rightarrow> props \<Rightarrow> props" where
  "entity_set t r p = stamp t (p
     (''name'' := sval (ent_name r),
      ''entity_type'' := sval (ent_entity_type r),
      ''mandate'' := sval (ent_mandate r),
      ''state'' := sval (ent_state r),
      ''latitude'' := toFloat (ent_latitude r),
      ''longitude'' := toFloat (ent_longitude r)))"

definition query_simple :: "nat \<Rightarrow> entity_row list \<Rightarrow> graph \<Rightarrow> graph" where
  "query_simple t rows g =
     fold (\<lambda>r. merge_node Entity ''entity_id'' (ent_entity_id r) (entity_set t r)) rows g"

text \<open>\<^verbatim>\<open>_create_entity_hierarchy\<close>: the rows with a parent, as (child, parent) pairs.\<close>

definition hierarchy_relationships :: "entity_row list \<Rightarrow> (string option \<times> string option) list" where
  "hierarchy_relationships rows =
     map (\<lambda>r. (Some (ent_entity_id r), ent_parent_org r))
         (filter (\<lambda>r. ent_parent_org r \<noteq> None) rows)"

definition rel_query ::
  "rel_type \<Rightarrow> label \<Rightarrow> label \<Rightarrow> ('a \<Rightarrow> string option \<times> string option) \<Rightarrow> ('a \<Rightarrow> props \<Rightarrow> props)
     \<Rightarrow> 'a list \<Rightarrow> graph \<Rightarrow> graph" where
  "rel_query t la lb ends upd rows g =
     fold (\<lambda>r. match_merge_rel t la (fst (ends r)) lb (snd (ends r)) (upd r)) rows g"

definition rel_count ::
  "label \<Rightarrow> label \<Rightarrow> ('a \<Rightarrow> string option \<times> string option) \<Rightarrow> 'a list \<Rightarrow> graph \<Rightarrow> nat" where
  "rel_count la lb ends rows g =
     length (filter (\<lambda>r. matched g la (fst (ends r)) lb (snd (ends r))) rows)"

definition create_entity_hierarchy :: "nat \<Rightarrow> entity_row list \<Rightarrow> state \<Rightarrow> state" where
  "create_entity_hierarchy t rows st =
     (let st1 = log_msg INFO ''Creating organizational hierarchy...'' None st;
          relationships = hierarchy_relationships rows
      in if relationships \<noteq> []
         then log_msg INFO ''Created {count} hierarchical relationships''
                (Some (rel_count Entity Entity id relationships (gr st1)))
                (st1\<lparr>gr := rel_query REPORTS_TO Entity Entity id (\<lambda>_. stamp t) relationships (gr st1)\<rparr>)
         else st1)"

text \<open>
  \<^verbatim>\<open>_create_policy_alignments\<close>. The tokens of a \<open>policy_alignment\<close> cell are its
  pieces between \<open>|\<close>, each stripped. \<open>all_policies\<close> is a Python set turned into a list;
  its order is not fixed by the source and nothing below depends on it.
\<close>

definition policy_tokens :: "string \<Rightarrow> string list" where
  "policy_tokens s = map strip (split_on CHR ''|'' s)"

definition row_policies :: "entity_row \<Rightarrow> string list" where
  "row_policies r = (case ent_policy_alignment r of None \<Rightarrow> [] | Some s \<Rightarrow> policy_tokens s)"

definition all_policies :: "entity_row list \<Rightarrow> string list" where
  "all_policies rows = remdups (concat (map row_policies rows))"

definition create_policy_query :: "nat \<Rightarrow> string list \<Rightarrow> graph \<Rightarrow> graph" where
  "create_policy_query t policies g =
     fold (\<lambda>n. merge_node Policy ''name'' n (stamp t)) policies g"

definition alignments :: "entity_row list \<Rightarrow> (string option \<times> string option) list" where
  "alignments rows =
     concat (map (\<lambda>r. map (\<lambda>p. (Some (ent_entity_id r), Some p)) (row_policies r)) rows)"

definition create_policy_alignments :: "nat \<Rightarrow> nat \<Rightarrow> entity_row list \<Rightarrow> state \<Rightarrow> state" where
  "create_policy_alignments t1 t2 rows st =
     (let st1 = log_msg INFO ''Creating policy alignments...'' None st;
          st2 = log_msg INFO ''Created {n} policy nodes'' (Some (length (all_policies rows)))
                  (st1\<lparr>gr := create_policy_query t1 (all_policies rows) (gr st1)\<rparr>)
      in log_msg INFO ''Created {count} policy alignment relationships''
           (Some (rel_count Entity Policy id (alignments rows) (gr st2)))
           (st2\<lparr>gr := rel_query ALIGNED_TO Entity Policy id (\<lambda>_. stamp t2) (alignments rows) (gr st2)\<rparr>))"

definition import_entities :: "(nat \<Rightarrow> nat) \<Rightarrow> entity_row list \<Rightarrow> state \<Rightarrow> state" where
  "import_entities now rows st =
     (let st1 = log_msg INFO ''Importing {n} entities...'' (Some (length rows)) st;
          st2 = log_msg INFO ''Created/updated {count} entity nodes'' (Some (length rows))
                  (st1\<lparr>gr := query_simple (now 0) rows (gr st1)\<rparr>);
          st3 = create_entity_hierarchy (now 1) rows st2
      in create_policy_alignments (now 2) (now 3) rows st3)"

subsection \<open>\<^verbatim>\<open>import_people\<close>\<close>

definition person_set :: "nat \<Rightarrow> person_row \<Rightarrow> props \<Rightarrow> props" where
  "person_set t r p = stamp t (p
     (''name'' := sval (per_name r),
      ''title'' := sval (per_title r),
      ''role_type'' := sval (per_role_type r),
      ''focus_area'' := sval (per_focus_area r),
      ''confidence_score'' := toFloat (per_confidence_score r),
      ''email'' := sval (per_email r),
      ''source'' := sval (per_source r)))"

definition people_query :: "nat \<Rightarrow> person_row list \<Rightarrow> graph \<Rightarrow> graph" where
  "people_query t rows g =
     fold (\<lambda>r. merge_node Person ''person_id'' (per_person_id r) (person_set t r)) rows g"

definition works_for_ends :: "person_row \<Rightarrow> string option \<times> string option" where
  "works_for_ends r = (Some (per_person_id r), per_entity_id r)"

definition import_people :: "(nat \<Rightarrow> nat) \<Rightarrow> person_row list \<Rightarrow> state \<Rightarrow> state" where
  "import_people now rows st =
     (let st1 = log_msg INFO ''Importing {n} people...'' (Some (length rows)) st;
          st2 = log_msg INFO ''Created/updated {count} person nodes'' (Some (length rows))
                  (st1\<lparr>gr := people_query (now 0) rows (gr st1)\<rparr>)
      in log_msg INFO ''Created {count} WORKS_FOR relationships''
           (Some (rel_count Person Entity works_for_ends rows (gr st2)))
           (st2\<lparr>gr := rel_query WORKS_FOR Person Entity works_for_ends (\<lambda>_. stamp (now 1)) rows (gr st2)\<rparr>))"

subsection \<open>\<^verbatim>\<open>import_partners\<close>\<close>

text \<open>
  \<^verbatim>\<open>toInteger\<close> of a contract cell. A number is truncated towards zero. A string is
  handed to the engine's own parser, which is not part of this repository and is a
  parameter \<open>parse\<close> here; where it finds no number the result is \<^verbatim>\<open>null\<close>, and
  \<^verbatim>\<open>SET r.x = null\<close> leaves the property unset. A float NaN is taken to convert to 0,
  as the narrowing conversion of the engine's platform does; no statement below depends
  on that case.
\<close>

definition trunc :: "rat \<Rightarrow> int" where
  "trunc q = (if 0 \<le> q then \<lfloor>q\<rfloor> else \<lceil>q\<rceil>)"

fun toInteger :: "(string \<Rightarrow> int option) \<Rightarrow> cell \<Rightarrow> pval option" where
  "toInteger parse CNaN = Some (VInt 0)"
| "toInteger parse (CNum q) = Some (VInt (trunc q))"
| "toInteger parse (CStr s) = map_option VInt (parse s)"

definition company_set :: "nat \<Rightarrow> partner_row \<Rightarrow> props \<Rightarrow> props" where
  "company_set t r p = stamp t (p
     (''name'' := sval (par_company_name r),
      ''focus_area'' := sval (par_focus_area r)))"

definition partners_query :: "nat \<Rightarrow> partner_row list \<Rightarrow> graph \<Rightarrow> graph" where
  "partners_query t rows g =
     fold (\<lambda>r. merge_node Company ''partner_id'' (par_partner_id r) (company_set t r)) rows g"

definition partnership_set :: "(string \<Rightarrow> int option) \<Rightarrow> nat \<Rightarrow> partner_row \<Rightarrow> props \<Rightarrow> props" where
  "partnership_set parse t r p = stamp t (p
     (''relationship_type'' := sval (par_relationship_type r),
      ''contract_value_rm'' := toInteger parse (par_contract_value_rm r),
      ''contract_year'' := toInteger parse (par_contract_year r),
      ''procurement_stage'' := sval (par_procurement_stage r)))"

definition partnership_ends :: "partner_row \<Rightarrow> string option \<times> string option" where
  "partnership_ends r = (Some (par_partner_id r), par_entity_id r)"

definition import_partners ::
  "(string \<Rightarrow> int option) \<Rightarrow> (nat \<Rightarrow> nat) \<Rightarrow> partner_row list \<Rightarrow> state \<Rightarrow> state" where
  "import_partners parse now rows st =
     (let st1 = log_msg INFO ''Importing {n} partners...'' (Some (length rows)) st;
          st2 = log_msg INFO ''Created/updated {count} company nodes'' (Some (length rows))
                  (st1\<lparr>gr := partners_query (now 0) rows (gr st1)\<rparr>)
      in log_msg INFO ''Created {count} PARTNERS_WITH relationships''
           (Some (rel_count Company Entity partnership_ends rows (gr st2)))
           (st2\<lparr>gr := rel_query PARTNERS_WITH Company Entity partnership_ends
                         (partnership_set parse (now 1)) rows (gr st2)\<rparr>))"

section \<open>Key lists: the vocabulary of the merge lemmas\<close>

text \<open>\<open>add_key\<close> is what a \<^verbatim>\<open>MERGE\<close> does to the list of identities: nothing when the
  identity is there, one new entry at the end otherwise.\<close>

definition add_key :: "'a \<Rightarrow> 'a list \<Rightarrow> 'a list" where
  "add_key k ks = (if k \<in> set ks then ks else ks @ [k])"

text \<open>The relationship keys a relationship statement touches, given the node keys present.\<close>

definition edge_list ::
  "rel_type \<Rightarrow> label \<Rightarrow> label \<Rightarrow> node_ref set \<Rightarrow> (string option \<times> string option) list \<Rightarrow> rel_key list" where
  "edge_list t la lb N ps =
     concat (map (\<lambda>p. case p of
                 (Some x, Some y) \<Rightarrow> if (la, x) \<in> N \<and> (lb, y) \<in> N then [(t, (la, x), (lb, y))] else []
               | _ \<Rightarrow> []) ps)"

definition entity_keys :: "entity_row list \<Rightarrow> node_ref list" where
  "entity_keys rows = map (\<lambda>r. (Entity, ent_entity_id r)) rows"

definition policy_keys :: "entity_row list \<Rightarrow> node_ref list" where
  "policy_keys rows = map (\<lambda>n. (Policy, n)) (all_policies rows)"

section \<open>The sample batches of \<^verbatim>\<open>DataPipeline._generate_sample_data\<close>\<close>

definition sample_entities :: "entity_row list" where
  "sample_entities =
     [\<lparr>ent_entity_id = ''MIN001'', ent_name = Some ''Ministry of Digital'',
       ent_entity_type = Some ''Ministry'', ent_mandate = Some ''Lead digital transformation'',
       ent_state = Some ''Federal'', ent_latitude = None, ent_longitude = None,
       ent_parent_org = None, ent_policy_alignment = Some ''MyDIGITAL|AI Roadmap''\<rparr>,
      \<lparr>ent_entity_id = ''MIN002'', ent_name = Some ''Ministry of Higher Education'',
       ent_entity_type = Some ''Ministry'', ent_mandate = Some ''Oversee higher education'',
       ent_state = Some ''Federal'', ent_latitude = None, ent_longitude = None,
       ent_parent_org = None, ent_policy_alignment = Some ''MyDIGITAL|4IR Policy''\<rparr>,
      \<lparr>ent_entity_id = ''AGN001'', ent_name = Some ''MDEC'',
       ent_entity_type = Some ''Agency'', ent_mandate = Some ''Drive digital economy'',
       ent_state = Some ''Federal'', ent_latitude = None, ent_longitude = None,
       ent_parent_org = Some ''MIN001'',
       ent_policy_alignment = Some ''MyDIGITAL|Digital Economy Blueprint''\<rparr>]"

definition sample_people :: "person_row list" where
  "sample_people =
     [\<lparr>per_person_id = ''P001'', per_name = Some ''Gobind Singh Deo'', per_title = Some ''Minister'',
       per_entity_id = Some ''MIN001'', per_role_type = Some ''Political'',
       per_focus_area = Some ''Digital Policy'', per_confidence_score = Some (95 / 100),
       per_email = Some ''minister@digital.gov.my'', per_source = Some ''Official Website''\<rparr>,
      \<lparr>per_person_id = ''P002'', per_name = Some ''Mahadhir Aziz'', per_title = Some ''CEO'',
       per_entity_id = Some ''AGN001'', per_role_type = Some ''Executive'',
       per_focus_area = Some ''Digital Economy'', per_confidence_score = Some (90 / 100),
       per_email = Some ''ceo@mdec.my'', per_source = Some ''LinkedIn''\<rparr>]"

definition sample_partners :: "partner_row list" where
  "sample_partners =
     [\<lparr>par_partner_id = ''COMP001'', par_company_name = Some ''TechMalaysia Solutions'',
       par_entity_id = Some ''AGN001'', par_relationship_type = Some ''Service Provider'',
       par_contract_value_rm = CNum 5200000, par_contract_year = CNum 2024,
       par_focus_area = Some ''Digital Infrastructure'',
       par_procurement_stage = Some ''Active''\<rparr>]"

text \<open>A fresh store with an empty log, and a parser that reads no string as a number.\<close>

definition state0 :: state where
  "state0 = \<lparr>gr = empty_graph, logs = []\<rparr>"

definition no_parse :: "string \<Rightarrow> int option" where
  "no_parse s = None"

section \<open>The cleaning and validation steps of \<^verbatim>\<open>DataPipeline\<close>\<close>

text \<open>\<^verbatim>\<open>str.lower()\<close> on the code points below 256.\<close>

definition lower_char :: "char \<Rightarrow> char" where
  "lower_char c = (let n = (of_char c :: nat)
                   in if (65 \<le> n \<and> n \<le> 90) \<or> (192 \<le> n \<and> n \<le> 222 \<and> n \<noteq> 215)
                      then char_of (n + 32) else c)"

definition lower :: "string \<Rightarrow> string" where
  "lower s = map lower_char s"

text \<open>\<^verbatim>\<open>Series.clip(lo, hi)\<close> on one cell of a numeric column; a missing cell stays missing.\<close>

definition clip :: "rat \<Rightarrow> rat \<Rightarrow> rat option \<Rightarrow> rat option" where
  "clip lo hi c = map_option (\<lambda>q. if q < lo then lo else if hi < q then hi else q) c"

text \<open>\<^verbatim>\<open>drop_duplicates(subset=[key], keep='first')\<close>: a row is kept when no earlier row
  has its key.\<close>

fun drop_dups_from :: "('a \<Rightarrow> 'k) \<Rightarrow> 'k list \<Rightarrow> 'a list \<Rightarrow> 'a list" where
  "drop_dups_from f seen [] = []"
| "drop_dups_from f seen (x # xs) =
     (if f x \<in> set seen then drop_dups_from f seen xs
      else x # drop_dups_from f (f x # seen) xs)"

definition drop_duplicates :: "('a \<Rightarrow> 'k) \<Rightarrow> 'a list \<Rightarrow> 'a list" where
  "drop_duplicates f xs = drop_dups_from f [] xs"

subsection \<open>\<^verbatim>\<open>_clean_people\<close>\<close>

definition clean_person :: "person_row \<Rightarrow> person_row" where
  "clean_person r = r
     \<lparr>per_name := map_option strip (per_name r),
      per_title := map_option strip (per_title r),
      per_confidence_score := clip 0 1 (per_confidence_score r),
      per_email := map_option (\<lambda>s. strip (lower s)) (per_email r)\<rparr>"

definition clean_people :: "person_row list \<Rightarrow> person_row list" where
  "clean_people df =
     filter (\<lambda>r. per_name r \<noteq> None \<and> per_entity_id r \<noteq> None)
       (map clean_person (drop_duplicates per_person_id df))"

subsection \<open>\<^verbatim>\<open>_clean_partners\<close>\<close>

text \<open>
  \<^verbatim>\<open>pd.to_numeric(.., errors='coerce')\<close> on one cell: a number stays, a missing cell stays
  missing, and a string goes through pandas' number parser, which is outside this
  repository and is the parameter \<open>to_num\<close>; a string it rejects becomes missing.
\<close>

fun to_numeric :: "(string \<Rightarrow> rat option) \<Rightarrow> cell \<Rightarrow> rat option" where
  "to_numeric to_num CNaN = None"
| "to_numeric to_num (CNum q) = Some q"
| "to_numeric to_num (CStr s) = to_num s"

fun fillna :: "rat \<Rightarrow> rat option \<Rightarrow> rat" where
  "fillna d None = d"
| "fillna d (Some q) = q"

fun num_cell :: "rat option \<Rightarrow> cell" where
  "num_cell None = CNaN"
| "num_cell (Some q) = CNum q"

definition clean_partner :: "(string \<Rightarrow> rat option) \<Rightarrow> nat \<Rightarrow> partner_row \<Rightarrow> partner_row" where
  "clean_partner to_num current_year r = r
     \<lparr>par_company_name := map_option strip (par_company_name r),
      par_contract_value_rm := CNum (fillna 0 (to_numeric to_num (par_contract_value_rm r))),
      par_contract_year :=
        num_cell (clip 2000 (of_nat current_year + 5) (to_numeric to_num (par_contract_year r)))\<rparr>"

definition clean_partners ::
  "(string \<Rightarrow> rat option) \<Rightarrow> nat \<Rightarrow> partner_row list \<Rightarrow> partner_row list" where
  "clean_partners to_num current_year df =
     filter (\<lambda>r. par_company_name r \<noteq> None \<and> par_entity_id r \<noteq> None)
       (map (clean_partner to_num current_year) (drop_duplicates par_partner_id df))"

subsection \<open>\<^verbatim>\<open>_validate_relationships\<close>\<close>

text \<open>\<^verbatim>\<open>Series.isin(entity_ids)\<close> on one cell; a missing cell is in no set of ids.\<close>

fun isin :: "string option \<Rightarrow> string list \<Rightarrow> bool" where
  "isin None ids = False"
| "isin (Some i) ids = (i \<in> set ids)"

definition warn_if_any :: "string \<Rightarrow> 'a list \<Rightarrow> state \<Rightarrow> state" where
  "warn_if_any m invalid st =
     (if length invalid > 0 then log_msg WARNING m (Some (length invalid)) st else st)"

definition invalid_people :: "entity_row list \<Rightarrow> person_row list \<Rightarrow> person_row list" where
  "invalid_people entities_df people_df =
     filter (\<lambda>r. \<not> isin (per_entity_id r) (map ent_entity_id entities_df)) people_df"

definition invalid_partners :: "entity_row list \<Rightarrow> partner_row list \<Rightarrow> partner_row list" where
  "invalid_partners entities_df partners_df =
     filter (\<lambda>r. \<not> isin (par_entity_id r) (map ent_entity_id entities_df)) partners_df"

definition invalid_parents :: "entity_row list \<Rightarrow> entity_row list" where
  "invalid_parents entities_df =
     filter (\<lambda>r. ent_parent_org r \<noteq> None
                \<and> \<not> isin (ent_parent_org r) (map ent_entity_id entities_df)) entities_df"

definition validate_relationships ::
  "entity_row list \<Rightarrow> person_row list \<Rightarrow> partner_row list \<Rightarrow> state \<Rightarrow> state" where
  "validate_relationships entities_df people_df partners_df st =
     warn_if_any ''Found {n} entities with invalid parent_org'' (invalid_parents entities_df)
       (warn_if_any ''Found {n} partners with invalid entity_id''
          (invalid_partners entities_df partners_df)
          (warn_if_any ''Found {n} people with invalid entity_id''
             (invalid_people entities_df people_df) st))"

section \<open>Reading stored values back\<close>

definition stored_confidence :: "graph \<Rightarrow> string \<Rightarrow> pval option" where
  "stored_confidence g pid =
     (case node_props g (Person, pid) of None \<Rightarrow> None | Some p \<Rightarrow> p ''confidence_score'')"

definition stored_contract_value :: "graph \<Rightarrow> string \<Rightarrow> string \<Rightarrow> pval option" where
  "stored_contract_value g pid eid =
     (case rel_props g (PARTNERS_WITH, (Company, pid), (Entity, eid)) of
        None \<Rightarrow> None | Some p \<Rightarrow> p ''contract_value_rm'')"

section \<open>Concrete rows used in the examples below\<close>

text \<open>Two person rows whose confidence is out of range: 1.4 and -0.2.\<close>

definition person_14 :: person_row where
  "person_14 = \<lparr>per_person_id = ''P001'', per_name = Some ''Gobind Singh Deo'',
     per_title = Some ''Minister'', per_entity_id = Some ''MIN001'',
     per_role_type = Some ''Political'', per_focus_area = Some ''Digital Policy'',
     per_confidence_score = Some (14 / 10), per_email = Some ''minister@digital.gov.my'',
     per_source = Some ''Official Website''\<rparr>"

definition person_neg :: person_row where
  "person_neg = person_14\<lparr>per_person_id := ''P002'', per_confidence_score := Some (- 2 / 10)\<rparr>"

text \<open>Two rows for the same person, with confidence 0.5 and 0.9.\<close>

definition person_half :: person_row where
  "person_half = person_14\<lparr>per_person_id := ''P003'', per_confidence_score := Some (5 / 10)\<rparr>"

definition person_again :: person_row where
  "person_again = person_half\<lparr>per_confidence_score := Some (9 / 10)\<rparr>"

text \<open>
  A parser of plain decimal integer literals (an optional minus sign, then digits). It
  stands in for the engine's and for pandas' number parsers in the concrete examples.
\<close>

fun digits_value :: "nat \<Rightarrow> string \<Rightarrow> nat option" where
  "digits_value acc [] = Some acc"
| "digits_value acc (c # cs) =
     (let n = (of_char c :: nat)
      in if 48 \<le> n \<and> n \<le> 57 then digits_value (10 * acc + (n - 48)) cs else None)"

definition parse_decimal :: "string \<Rightarrow> int option" where
  "parse_decimal s =
     (case s of
        [] \<Rightarrow> None
      | c # cs \<Rightarrow>
          if c = CHR ''-''
          then (if cs = [] then None else map_option (\<lambda>n. - int n) (digits_value 0 cs))
          else map_option int (digits_value 0 s))"

definition parse_decimal_rat :: "string \<Rightarrow> rat option" where
  "parse_decimal_rat s = map_option of_int (parse_decimal s)"

text \<open>The sample partner row with a contract value that is not a number, and a store
  that already holds the sample entities.\<close>

definition partner_text :: partner_row where
  "partner_text = \<lparr>par_partner_id = ''COMP001'', par_company_name = Some ''TechMalaysia Solutions'',
     par_entity_id = Some ''AGN001'', par_relationship_type = Some ''Service Provider'',
     par_contract_value_rm = CStr ''not a number'', par_contract_year = CNum 2024,
     par_focus_area = Some ''Digital Infrastructure'',
     par_procurement_stage = Some ''Active''\<rparr>"

text \<open>A second row for the same partner, for another entity.\<close>

definition partner_second :: partner_row where
  "partner_second = partner_text\<lparr>par_entity_id := Some ''MIN001''\<rparr>"

definition partner_first :: partner_row where
  "partner_first = partner_text\<lparr>par_contract_value_rm := CNum 5200000\<rparr>"

definition state1 :: state where
  "state1 = import_entities id sample_entities state0"

text \<open>An entity row whose parent is not an entity of the batch.\<close>

definition orphan_entity :: entity_row where
  "orphan_entity = \<lparr>ent_entity_id = ''AGN002'', ent_name = Some ''Orphan Agency'',
     ent_entity_type = Some ''Agency'', ent_mandate = None, ent_state = Some ''Federal'',
     ent_latitude = None, ent_longitude = None, ent_parent_org = Some ''MIN999'',
     ent_policy_alignment = None\<rparr>"

section \<open>The hierarchy query of \<^verbatim>\<open>get_entity_hierarchy\<close>\<close>

datatype py_error = TypeError | ZeroDivisionError | ValueError | DuplicateIDError

text \<open>
  \<^verbatim>\<open>(e)-[:REPORTS_TO*0..]->(parent)\<close> binds \<open>parent\<close> to the end node of every path that
  starts at \<open>e\<close>, follows \<^verbatim>\<open>REPORTS_TO\<close> relationships in their direction, has any length
  from 0 on, and uses no relationship twice. \<open>var_expand es used n\<close> lists these end nodes
  depth first, relationships taken in store order: \<open>es\<close> are the relationships as
  (start, end) pairs, \<open>used\<close> the positions of the relationships already on the path,
  \<open>n\<close> the node reached. The path of length 0 comes first, so the start node itself is
  the first end node.
\<close>

function var_expand :: "('n \<times> 'n) list \<Rightarrow> nat list \<Rightarrow> 'n \<Rightarrow> 'n list" where
  "var_expand es used n =
     n # concat (map (\<lambda>i. var_expand es (i # used) (snd (es ! i)))
                  (filter (\<lambda>i. i \<notin> set used \<and> fst (es ! i) = n) [0..<length es]))"
  by pat_completeness auto
termination
proof (relation "measure (\<lambda>(es, used, n). card ({..<length es} - set used))")
  show "wf (measure (\<lambda>(es, used, n). card ({..<length es} - set used)))"
    by simp
next
  fix es :: "('n \<times> 'n) list" and used :: "nat list" and n :: 'n and i :: nat
  assume "i \<in> set (filter (\<lambda>i. i \<notin> set used \<and> fst (es ! i) = n) [0..<length es])"
  then have i: "i < length es" "i \<notin> set used"
    by simp_all
  have "{..<length es} - set (i # used) \<subset> {..<length es} - set used"
    using i by auto
  then have "card ({..<length es} - set (i # used)) < card ({..<length es} - set used)"
    by (intro psubset_card_mono) simp_all
  then show "((es, i # used, snd (es ! i)), (es, used, n))
               \<in> measure (\<lambda>(es, used, n). card ({..<length es} - set used))"
    by simp
qed

declare var_expand.simps [simp del]

definition reports_to_pairs :: "graph \<Rightarrow> (node_ref \<times> node_ref) list" where
  "reports_to_pairs g = map snd (filter (\<lambda>k. fst k = REPORTS_TO) (rel_keys g))"

definition swap_pair :: "'a \<times> 'b \<Rightarrow> 'b \<times> 'a" where
  "swap_pair p = (snd p, fst p)"

text \<open>The nodes bound to \<open>parent\<close> and, for the second pattern
  \<^verbatim>\<open>(child)-[:REPORTS_TO*0..]->(e)\<close>, to \<open>child\<close>.\<close>

definition hierarchy_parents :: "graph \<Rightarrow> string \<Rightarrow> node_ref list" where
  "hierarchy_parents g entity_id = var_expand (reports_to_pairs g) [] (Entity, entity_id)"

definition hierarchy_children :: "graph \<Rightarrow> string \<Rightarrow> node_ref list" where
  "hierarchy_children g entity_id =
     var_expand (map swap_pair (reports_to_pairs g)) [] (Entity, entity_id)"

text \<open>The map \<^verbatim>\<open>{name: p.name, id: p.entity_id, type: p.entity_type}\<close> of a node.\<close>

record node_summary =
  ns_name :: "pval option"
  ns_id :: "pval option"
  ns_type :: "pval option"

definition node_prop :: "graph \<Rightarrow> node_ref \<Rightarrow> string \<Rightarrow> pval option" where
  "node_prop g n k = (case node_props g n of None \<Rightarrow> None | Some p \<Rightarrow> p k)"

definition summary :: "graph \<Rightarrow> node_ref \<Rightarrow> node_summary" where
  "summary g n = \<lparr>ns_name = node_prop g n ''name'', ns_id = node_prop g n ''entity_id'',
                  ns_type = node_prop g n ''entity_type''\<rparr>"

record hierarchy =
  entity_name :: "pval option"
  parents :: "node_summary list"
  children :: "node_summary list"

text \<open>
  When no Entity has the id the statement returns no record, \<^verbatim>\<open>result.single()\<close> is
  \<^verbatim>\<open>None\<close> and \<^verbatim>\<open>dict(None)\<close> raises a \<^verbatim>\<open>TypeError\<close>.
\<close>

definition get_entity_hierarchy :: "graph \<Rightarrow> string \<Rightarrow> py_error + hierarchy" where
  "get_entity_hierarchy g entity_id =
     (if (Entity, entity_id) \<in> set (node_keys g)
      then Inr \<lparr>entity_name = node_prop g (Entity, entity_id) ''name'',
                parents = map (summary g) (hierarchy_parents g entity_id),
                children = map (summary g) (hierarchy_children g entity_id)\<rparr>
      else Inl TypeError)"

text \<open>The chain of the hierarchy example: A at the top, B reports to A, C reports to B.\<close>

definition chain_row :: "string \<Rightarrow> string option \<Rightarrow> entity_row" where
  "chain_row i p = \<lparr>ent_entity_id = i, ent_name = Some i, ent_entity_type = Some ''Agency'',
     ent_mandate = None, ent_state = None, ent_latitude = None, ent_longitude = None,
     ent_parent_org = p, ent_policy_alignment = None\<rparr>"

definition chain_rows :: "entity_row list" where
  "chain_rows = [chain_row ''A'' None, chain_row ''B'' (Some ''A''), chain_row ''C'' (Some ''B'')]"

definition chain_state :: state where
  "chain_state = import_entities id chain_rows state0"

text \<open>The \<open>id\<close> fields of the \<open>parents\<close> list of a result.\<close>

definition parent_ids :: "py_error + hierarchy \<Rightarrow> py_error + pval option list" where
  "parent_ids res = (case res of Inl e \<Rightarrow> Inl e | Inr h \<Rightarrow> Inr (map ns_id (parents h)))"

section \<open>The most-connected-nodes statement of \<^verbatim>\<open>Neo4jConnector.get_graph_statistics\<close>\<close>

text \<open>
  \<^verbatim>\<open>OPTIONAL MATCH (n)-[r]-()\<close> with \<^verbatim>\<open>count(r)\<close>: the relationships that start or end at
  \<open>n\<close>, whatever their direction (a relationship from \<open>n\<close> to itself is matched once).
\<close>

definition degree :: "graph \<Rightarrow> node_ref \<Rightarrow> nat" where
  "degree g n = length (filter (\<lambda>k. fst (snd k) = n \<or> snd (snd k) = n) (rel_keys g))"

fun label_name :: "label \<Rightarrow> string" where
  "label_name Entity = ''Entity''"
| "label_name Person = ''Person''"
| "label_name Company = ''Company''"
| "label_name Policy = ''Policy''"

text \<open>The optional \<^verbatim>\<open>WHERE labels(n)[0] IN filter_labels\<close>: absent when \<open>filter_labels\<close> is
  \<^verbatim>\<open>None\<close> or empty.\<close>

fun label_filter :: "string list option \<Rightarrow> node_ref \<Rightarrow> bool" where
  "label_filter None n = True"
| "label_filter (Some ls) n = (ls = [] \<or> label_name (fst n) \<in> set ls)"

record connected_row =
  mc_name :: "pval option"
  mc_type :: string
  mc_connections :: nat

definition connected_row_of :: "graph \<Rightarrow> node_ref \<Rightarrow> connected_row" where
  "connected_row_of g n =
     \<lparr>mc_name = node_prop g n ''name'', mc_type = label_name (fst n), mc_connections = degree g n\<rparr>"

text \<open>
  The statement orders by \<^verbatim>\<open>connections DESC\<close> only. Cypher leaves the order of rows
  with equal keys to the engine, so the order in which the engine produces the matched
  nodes is an input of the model: \<open>scan\<close>, an enumeration of the nodes of the store. Rows
  with equal counts keep their \<open>scan\<close> order; every order the statement permits arises
  from some enumeration.
\<close>

definition ranked :: "node_ref list \<Rightarrow> string list option \<Rightarrow> graph \<Rightarrow> node_ref list" where
  "ranked scan filter_labels g =
     sort_key (\<lambda>n. - int (degree g n))
       (filter (\<lambda>n. degree g n > 0) (filter (label_filter filter_labels) scan))"

definition most_connected :: "node_ref list \<Rightarrow> string list option \<Rightarrow> graph \<Rightarrow> connected_row list" where
  "most_connected scan filter_labels g =
     map (connected_row_of g) (take 10 (ranked scan filter_labels g))"

text \<open>Two entities and one relationship between them.\<close>

definition pair_state :: state where
  "pair_state = import_entities id [chain_row ''A'' None, chain_row ''B'' (Some ''A'')] state0"

section \<open>The semantic index of \<^verbatim>\<open>GovernmentVectorSearch\<close>\<close>

text \<open>
  A collection of the vector store, as far as the indexing code and the counts see it:
  the stored records in insertion order, each with its id, its document text and its
  metadata. Embeddings play no role in the claims on indexing and are left out.
\<close>

datatype mval = MStr string | MFloat "rat option" | MInt int | MTime nat

record doc_record =
  doc_id :: string
  doc_text :: string
  doc_meta :: "(string \<times> mval) list"

type_synonym collection = "doc_record list"

definition collection_ids :: "collection \<Rightarrow> string list" where
  "collection_ids c = map doc_id c"

definition collection_count :: "collection \<Rightarrow> nat" where
  "collection_count c = length c"

definition collection_get :: "collection \<Rightarrow> string \<Rightarrow> doc_record option" where
  "collection_get c i = find (\<lambda>d. doc_id d = i) c"

text \<open>
  \<^verbatim>\<open>collection.add(documents, metadatas, ids)\<close>. The code calls \<^verbatim>\<open>add\<close>, not
  \<^verbatim>\<open>upsert\<close>. In the client the code is written for (it has
  \<^verbatim>\<open>chromadb.PersistentClient\<close>), \<^verbatim>\<open>add\<close> rejects an empty batch and a batch that
  repeats an id, and for an id that is already in the collection it keeps the stored
  record and ignores the new one.
\<close>

definition collection_add :: "doc_record list \<Rightarrow> collection \<Rightarrow> py_error + collection" where
  "collection_add batch c =
     (if batch = [] then Inl ValueError
      else if \<not> distinct (map doc_id batch) then Inl DuplicateIDError
      else Inr (c @ filter (\<lambda>d. doc_id d \<notin> set (collection_ids c)) batch))"

text \<open>\<^verbatim>\<open>str(x)\<close> of a text cell (a missing cell is the float NaN and prints as \<open>nan\<close>),
  \<^verbatim>\<open>sep.join(parts)\<close>, and \<^verbatim>\<open>s.replace('|', ', ')\<close>.\<close>

fun py_str :: "string option \<Rightarrow> string" where
  "py_str None = ''nan''"
| "py_str (Some s) = s"

fun join :: "string \<Rightarrow> string list \<Rightarrow> string" where
  "join sep [] = []"
| "join sep [p] = p"
| "join sep (p # q # ps) = p @ sep @ join sep (q # ps)"

definition replace_pipe :: "string \<Rightarrow> string" where
  "replace_pipe s = concat (map (\<lambda>c. if c = CHR ''|'' then '', '' else [c]) s)"

definition create_entity_document :: "entity_row \<Rightarrow> string" where
  "create_entity_document row =
     join ''. ''
       ([''Entity: '' @ py_str (ent_name row),
         ''Type: '' @ py_str (ent_entity_type row),
         ''Mandate: '' @ py_str (ent_mandate row)]
        @ (case ent_policy_alignment row of
             None \<Rightarrow> [] | Some p \<Rightarrow> [''Policy Alignment: '' @ replace_pipe p])
        @ (case ent_parent_org row of
             None \<Rightarrow> [] | Some p \<Rightarrow> [''Reports to: '' @ p]))"

definition create_person_document :: "person_row \<Rightarrow> string" where
  "create_person_document row =
     join ''. ''
       [''Person: '' @ py_str (per_name row),
        ''Title: '' @ py_str (per_title row),
        ''Role: '' @ py_str (per_role_type row),
        ''Focus Area: '' @ py_str (per_focus_area row),
        ''Works at entity: '' @ py_str (per_entity_id row)]"

text \<open>One record per row; \<open>t\<close> is the value of \<^verbatim>\<open>datetime.now()\<close> when the row is
  processed.\<close>

definition entity_record :: "nat \<Rightarrow> entity_row \<Rightarrow> doc_record" where
  "entity_record t row =
     \<lparr>doc_id = ''entity_'' @ ent_entity_id row,
      doc_text = create_entity_document row,
      doc_meta =
        [(''entity_id'', MStr (ent_entity_id row)),
         (''name'', MStr (py_str (ent_name row))),
         (''entity_type'', MStr (py_str (ent_entity_type row))),
         (''parent_org'', MStr (py_str (ent_parent_org row))),
         (''policy_alignment'', MStr (py_str (ent_policy_alignment row))),
         (''state'', MStr (py_str (ent_state row))),
         (''indexed_at'', MTime t)]\<rparr>"

definition person_record :: "nat \<Rightarrow> person_row \<Rightarrow> doc_record" where
  "person_record t row =
     \<lparr>doc_id = ''person_'' @ per_person_id row,
      doc_text = create_person_document row,
      doc_meta =
        [(''person_id'', MStr (per_person_id row)),
         (''name'', MStr (py_str (per_name row))),
         (''title'', MStr (py_str (per_title row))),
         (''entity_id'', MStr (py_str (per_entity_id row))),
         (''role_type'', MStr (py_str (per_role_type row))),
         (''focus_area'', MStr (py_str (per_focus_area row))),
         (''confidence_score'', MFloat (per_confidence_score row)),
         (''email'', MStr (py_str (per_email row))),
         (''indexed_at'', MTime t)]\<rparr>"

text \<open>\<open>now k\<close> is the clock reading at the \<open>k\<close>-th row of the batch.\<close>

definition index_entities :: "(nat \<Rightarrow> nat) \<Rightarrow> entity_row list \<Rightarrow> collection \<Rightarrow> py_error + collection" where
  "index_entities now entities_df c =
     collection_add (map (\<lambda>(k, row). entity_record (now k) row) (enumerate 0 entities_df)) c"

definition index_people :: "(nat \<Rightarrow> nat) \<Rightarrow> person_row list \<Rightarrow> collection \<Rightarrow> py_error + collection" where
  "index_people now people_df c =
     collection_add (map (\<lambda>(k, row). person_record (now k) row) (enumerate 0 people_df)) c"

text \<open>Indexing twice in a row; the second call does not happen when the first raises.\<close>

definition index_entities_twice ::
  "(nat \<Rightarrow> nat) \<Rightarrow> (nat \<Rightarrow> nat) \<Rightarrow> entity_row list \<Rightarrow> entity_row list \<Rightarrow> collection
     \<Rightarrow> py_error + collection" where
  "index_entities_twice now now' df df' c =
     (case index_entities now df c of Inl e \<Rightarrow> Inl e | Inr c1 \<Rightarrow> index_entities now' df' c1)"

text \<open>The first sample entity, and the same entity with a new name.\<close>

definition min001 :: entity_row where
  "min001 = hd sample_entities"

definition min001_renamed :: entity_row where
  "min001_renamed = min001\<lparr>ent_name := Some ''Ministry of Digital Affairs''\<rparr>"

definition later :: "nat \<Rightarrow> nat" where
  "later k = k + 100"

definition indexed_text :: "py_error + collection \<Rightarrow> string \<Rightarrow> string option" where
  "indexed_text res i =
     (case res of Inl e \<Rightarrow> None | Inr c \<Rightarrow> map_option doc_text (collection_get c i))"

definition indexed_at :: "py_error + collection \<Rightarrow> string \<Rightarrow> mval option" where
  "indexed_at res i =
     (case res of
        Inl e \<Rightarrow> None
      | Inr c \<Rightarrow> (case collection_get c i of None \<Rightarrow> None | Some d \<Rightarrow> map_of (doc_meta d) ''indexed_at''))"

definition count_of :: "py_error + collection \<Rightarrow> nat option" where
  "count_of res = (case res of Inl e \<Rightarrow> None | Inr c \<Rightarrow> Some (collection_count c))"

text \<open>The records of the two sample people, indexed at clock readings 0 and 1.\<close>

definition sample_people_records :: collection where
  "sample_people_records = [person_record 0 (sample_people ! 0), person_record 1 (sample_people ! 1)]"

section \<open>\<^verbatim>\<open>AdvancedSearch.hybrid_search\<close>\<close>

text \<open>
  \<^verbatim>\<open>str.split()\<close> without a separator: the maximal runs of characters that are not
  whitespace. \<open>cur\<close> holds the run being read, reversed.
\<close>

fun split_ws_from :: "string \<Rightarrow> string \<Rightarrow> string list" where
  "split_ws_from cur [] = (if cur = [] then [] else [rev cur])"
| "split_ws_from cur (c # cs) =
     (if isspace c
      then (if cur = [] then split_ws_from [] cs else rev cur # split_ws_from [] cs)
      else split_ws_from (c # cur) cs)"

definition split_ws :: "string \<Rightarrow> string list" where
  "split_ws s = split_ws_from [] s"

text \<open>
  One hit of a semantic search, as \<^verbatim>\<open>_format_results\<close> builds it, and a hit after
  re-ranking. Scores are exact rationals.
\<close>

record search_hit =
  hit_id :: string
  hit_metadata :: "(string \<times> mval) list"
  hit_document :: string
  hit_distance :: rat
  hit_relevance_score :: rat

record ranked_hit = search_hit +
  hybrid_score :: rat
  category :: string

text \<open>\<^verbatim>\<open>set(query.lower().split())\<close>: the distinct lower-cased tokens.\<close>

definition terms :: "string \<Rightarrow> string list" where
  "terms s = remdups (split_ws (lower s))"

text \<open>\<^verbatim>\<open>len(query_terms & doc_terms) / len(query_terms)\<close>; the division raises when the
  query has no token.\<close>

definition keyword_score :: "string list \<Rightarrow> string \<Rightarrow> py_error + rat" where
  "keyword_score query_terms document =
     (let doc_terms = terms document
      in if length query_terms = 0 then Inl ZeroDivisionError
         else Inr (of_nat (length (filter (\<lambda>t. t \<in> set doc_terms) query_terms))
                   / of_nat (length query_terms)))"

definition rank_hit :: "rat \<Rightarrow> string \<Rightarrow> search_hit \<Rightarrow> rat \<Rightarrow> ranked_hit" where
  "rank_hit keyword_boost cat r ks =
     \<lparr>hit_id = hit_id r, hit_metadata = hit_metadata r, hit_document = hit_document r,
      hit_distance = hit_distance r, hit_relevance_score = hit_relevance_score r,
      hybrid_score = (1 - keyword_boost) * hit_relevance_score r + keyword_boost * ks,
      category = cat\<rparr>"

text \<open>The keyword score of a document for a query with at least one token.\<close>

definition overlap :: "string \<Rightarrow> string \<Rightarrow> rat" where
  "overlap query document =
     of_nat (length (filter (\<lambda>t. t \<in> set (terms document)) (terms query)))
     / of_nat (length (terms query))"

text \<open>The two nested loops over the categories and their hits, flattened into one list
  of (category, hit) pairs; the first failing division ends the call.\<close>

fun score_all :: "string list \<Rightarrow> rat \<Rightarrow> (string \<times> search_hit) list \<Rightarrow> py_error + ranked_hit list" where
  "score_all query_terms keyword_boost [] = Inr []"
| "score_all query_terms keyword_boost ((cat, r) # rest) =
     (case keyword_score query_terms (hit_document r) of
        Inl e \<Rightarrow> Inl e
      | Inr ks \<Rightarrow>
          (case score_all query_terms keyword_boost rest of
             Inl e \<Rightarrow> Inl e
           | Inr hs \<Rightarrow> Inr (rank_hit keyword_boost cat r ks # hs)))"

text \<open>
  \<^verbatim>\<open>search_all\<close> queries the vector store, which is outside this repository: it is the
  parameter \<open>search_all\<close>, giving for a query and a number of results the hits of the
  three collections. \<^verbatim>\<open>sort(key=.., reverse=True)\<close> is stable, as is sorting by the
  negated score.
\<close>

definition tagged_hits ::
  "search_hit list \<times> search_hit list \<times> search_hit list \<Rightarrow> (string \<times> search_hit) list" where
  "tagged_hits res =
     (case res of (entities, people, partners) \<Rightarrow>
        map (Pair ''entities'') entities @ map (Pair ''people'') people
        @ map (Pair ''partners'') partners)"

definition hybrid_search ::
  "(string \<Rightarrow> nat \<Rightarrow> search_hit list \<times> search_hit list \<times> search_hit list)
     \<Rightarrow> string \<Rightarrow> rat \<Rightarrow> nat \<Rightarrow> py_error + ranked_hit list" where
  "hybrid_search search_all query keyword_boost n_results =
     (let semantic_results = search_all query n_results;
          query_terms = terms query
      in case score_all query_terms keyword_boost (tagged_hits semantic_results) of
           Inl e \<Rightarrow> Inl e
         | Inr all_results \<Rightarrow>
             Inr (take n_results (sort_key (\<lambda>h. - hybrid_score h) all_results)))"

text \<open>A store whose collections are empty, and one whose entity collection answers
  every query with one hit.\<close>

definition no_hits :: "string \<Rightarrow> nat \<Rightarrow> search_hit list \<times> search_hit list \<times> search_hit list" where
  "no_hits q n = ([], [], [])"

definition mdec_hit :: search_hit where
  "mdec_hit = \<lparr>hit_id = ''entity_AGN001'', hit_metadata = [],
     hit_document = ''Entity: MDEC. Type: Agency'', hit_distance = 1 / 4,
     hit_relevance_score = 3 / 4\<rparr>"

definition one_hit :: "string \<Rightarrow> nat \<Rightarrow> search_hit list \<times> search_hit list \<times> search_hit list" where
  "one_hit q n = ([mdec_hit], [], [])"

section \<open>What the import operations do to the node and relationship identities\<close>



lemma set_fold_add_key: "set (fold add_key ks l) = set ks \<union> set l"
  by (induction ks arbitrary: l) (auto simp: add_key_def)

lemma fold_add_key_absorb: "set ks \<subseteq> set l \<Longrightarrow> fold add_key ks l = l"
  by (induction ks arbitrary: l) (auto simp: add_key_def)

lemma distinct_fold_add_key: "distinct l \<Longrightarrow> distinct (fold add_key ks l)"
  by (induction ks arbitrary: l) (auto simp: add_key_def)

lemma gr_log_msg: "gr (log_msg lv m n st) = gr st"
  by (simp add: log_msg_def)

lemma node_keys_merge_node:
  "node_keys (merge_node l kn k upd g) = add_key (l, k) (node_keys g)"
proof -
  have "map fst (map (\<lambda>(r, p). if r = (l, k) then (r, upd p) else (r, p)) xs) = map fst xs" for xs
    by (induction xs) auto
  then show ?thesis
    by (simp add: merge_node_def node_keys_def add_key_def)
qed

lemma rel_keys_merge_node: "rel_keys (merge_node l kn k upd g) = rel_keys g"
  by (simp add: merge_node_def rel_keys_def)

lemma node_keys_merge_rel: "node_keys (merge_rel t a b upd g) = node_keys g"
  by (simp add: merge_rel_def node_keys_def)

lemma rel_keys_merge_rel:
  "rel_keys (merge_rel t a b upd g) =
     (if a \<in> set (node_keys g) \<and> b \<in> set (node_keys g)
      then add_key (t, a, b) (rel_keys g) else rel_keys g)"
proof -
  have "map fst (map (\<lambda>(r, p). if r = (t, a, b) then (r, upd p) else (r, p)) xs) = map fst xs" for xs
    by (induction xs) auto
  then show ?thesis
    by (simp add: merge_rel_def rel_keys_def add_key_def)
qed

lemma node_keys_fold_merge_node:
  "node_keys (fold (\<lambda>r. merge_node l kn (f r) (u r)) rows g)
     = fold add_key (map (\<lambda>r. (l, f r)) rows) (node_keys g)"
  by (induction rows arbitrary: g) (simp_all add: node_keys_merge_node)

lemma rel_keys_fold_merge_node:
  "rel_keys (fold (\<lambda>r. merge_node l kn (f r) (u r)) rows g) = rel_keys g"
  by (induction rows arbitrary: g) (simp_all add: rel_keys_merge_node)

lemma node_keys_match_merge_rel: "node_keys (match_merge_rel t la a lb b upd g) = node_keys g"
  by (simp add: match_merge_rel_def node_keys_merge_rel split: option.splits)

lemma node_keys_rel_query: "node_keys (rel_query t la lb ends upd rows g) = node_keys g"
  unfolding rel_query_def
  by (induction rows arbitrary: g) (simp_all add: node_keys_match_merge_rel)

lemma rel_keys_rel_query:
  "rel_keys (rel_query t la lb ends upd rows g)
     = fold add_key (edge_list t la lb (set (node_keys g)) (map ends rows)) (rel_keys g)"
  unfolding rel_query_def
proof (induction rows arbitrary: g)
  case Nil
  then show ?case by (simp add: edge_list_def)
next
  case (Cons r rows)
  obtain a b where e: "ends r = (a, b)" by (cases "ends r")
  have nk: "node_keys (match_merge_rel t la a lb b (upd r) g) = node_keys g"
    by (rule node_keys_match_merge_rel)
  have rk: "rel_keys (match_merge_rel t la a lb b (upd r) g)
      = fold add_key (edge_list t la lb (set (node_keys g)) [(a, b)]) (rel_keys g)"
    by (simp add: match_merge_rel_def rel_keys_merge_rel edge_list_def split: option.splits)
  have app: "edge_list t la lb N (p # ps) = edge_list t la lb N [p] @ edge_list t la lb N ps" for N p ps
    by (simp add: edge_list_def)
  show ?case
    using Cons.IH[of "match_merge_rel t la a lb b (upd r) g"]
    by (simp add: e nk rk app[of _ "(a, b)" "map ends rows"])
qed

lemma edge_list_cong:
  assumes "\<And>x. (la, x) \<in> N \<longleftrightarrow> (la, x) \<in> N'" and "\<And>y. (lb, y) \<in> N \<longleftrightarrow> (lb, y) \<in> N'"
  shows "edge_list t la lb N ps = edge_list t la lb N' ps"
  unfolding edge_list_def
  by (rule arg_cong[where f = concat], rule map_cong) (auto simp: assms split: option.splits)

lemma gr_create_entity_hierarchy:
  "gr (create_entity_hierarchy t rows st)
     = rel_query REPORTS_TO Entity Entity id (\<lambda>_. stamp t) (hierarchy_relationships rows) (gr st)"
  by (simp add: create_entity_hierarchy_def Let_def gr_log_msg rel_query_def)

lemma gr_create_policy_alignments:
  "gr (create_policy_alignments t1 t2 rows st)
     = rel_query ALIGNED_TO Entity Policy id (\<lambda>_. stamp t2) (alignments rows)
         (create_policy_query t1 (all_policies rows) (gr st))"
  by (simp add: create_policy_alignments_def Let_def gr_log_msg)

lemma gr_import_entities:
  "gr (import_entities now rows st)
     = rel_query ALIGNED_TO Entity Policy id (\<lambda>_. stamp (now 3)) (alignments rows)
         (create_policy_query (now 2) (all_policies rows)
           (rel_query REPORTS_TO Entity Entity id (\<lambda>_. stamp (now 1)) (hierarchy_relationships rows)
             (query_simple (now 0) rows (gr st))))"
  by (simp add: import_entities_def Let_def gr_log_msg gr_create_entity_hierarchy
        gr_create_policy_alignments)

lemma gr_import_people:
  "gr (import_people now rows st)
     = rel_query WORKS_FOR Person Entity works_for_ends (\<lambda>_. stamp (now 1)) rows
         (people_query (now 0) rows (gr st))"
  by (simp add: import_people_def Let_def gr_log_msg)

lemma gr_import_partners:
  "gr (import_partners parse now rows st)
     = rel_query PARTNERS_WITH Company Entity partnership_ends (partnership_set parse (now 1)) rows
         (partners_query (now 0) rows (gr st))"
  by (simp add: import_partners_def Let_def gr_log_msg)

lemma node_keys_import_entities:
  "node_keys (gr (import_entities now rows st))
     = fold add_key (policy_keys rows) (fold add_key (entity_keys rows) (node_keys (gr st)))"
  by (simp add: gr_import_entities node_keys_rel_query create_policy_query_def query_simple_def
        node_keys_fold_merge_node entity_keys_def policy_keys_def)

lemma rel_keys_import_entities:
  "rel_keys (gr (import_entities now rows st))
     = fold add_key
         (edge_list ALIGNED_TO Entity Policy
            (set (fold add_key (policy_keys rows) (fold add_key (entity_keys rows) (node_keys (gr st)))))
            (alignments rows))
         (fold add_key
            (edge_list REPORTS_TO Entity Entity
               (set (fold add_key (entity_keys rows) (node_keys (gr st))))
               (hierarchy_relationships rows))
            (rel_keys (gr st)))"
  by (simp add: gr_import_entities rel_keys_rel_query node_keys_rel_query create_policy_query_def
        query_simple_def node_keys_fold_merge_node rel_keys_fold_merge_node entity_keys_def
        policy_keys_def)

lemma node_keys_import_people:
  "node_keys (gr (import_people now rows st))
     = fold add_key (map (\<lambda>r. (Person, per_person_id r)) rows) (node_keys (gr st))"
  by (simp add: gr_import_people node_keys_rel_query people_query_def node_keys_fold_merge_node)

lemma rel_keys_import_people:
  "rel_keys (gr (import_people now rows st))
     = fold add_key
         (edge_list WORKS_FOR Person Entity (set (node_keys (gr (import_people now rows st))))
            (map works_for_ends rows))
         (rel_keys (gr st))"
  by (simp add: gr_import_people node_keys_rel_query rel_keys_rel_query people_query_def
        node_keys_fold_merge_node rel_keys_fold_merge_node)

lemma node_keys_import_partners:
  "node_keys (gr (import_partners parse now rows st))
     = fold add_key (map (\<lambda>r. (Company, par_partner_id r)) rows) (node_keys (gr st))"
  by (simp add: gr_import_partners node_keys_rel_query partners_query_def node_keys_fold_merge_node)

lemma rel_keys_import_partners:
  "rel_keys (gr (import_partners parse now rows st))
     = fold add_key
         (edge_list PARTNERS_WITH Company Entity
            (set (node_keys (gr (import_partners parse now rows st)))) (map partnership_ends rows))
         (rel_keys (gr st))"
  by (simp add: gr_import_partners node_keys_rel_query rel_keys_rel_query partners_query_def
        node_keys_fold_merge_node rel_keys_fold_merge_node)

lemma fold_add_key_twice: "fold add_key ks (fold add_key ks l) = fold add_key ks l"
  by (rule fold_add_key_absorb) (simp add: set_fold_add_key)

lemma import_entities_twice_nodes:
  "node_keys (gr (import_entities now' rows (import_entities now rows st)))
     = node_keys (gr (import_entities now rows st))"
proof -
  let ?N = "fold add_key (policy_keys rows) (fold add_key (entity_keys rows) (node_keys (gr st)))"
  have "fold add_key (entity_keys rows) ?N = ?N"
    by (rule fold_add_key_absorb) (auto simp: set_fold_add_key)
  moreover have "fold add_key (policy_keys rows) ?N = ?N"
    by (rule fold_add_key_absorb) (auto simp: set_fold_add_key)
  ultimately show ?thesis
    by (simp add: node_keys_import_entities)
qed

lemma import_entities_twice_rels:
  "rel_keys (gr (import_entities now' rows (import_entities now rows st)))
     = rel_keys (gr (import_entities now rows st))"
proof -
  let ?N1 = "fold add_key (entity_keys rows) (node_keys (gr st))"
  let ?N2 = "fold add_key (policy_keys rows) ?N1"
  let ?H = "edge_list REPORTS_TO Entity Entity (set ?N1) (hierarchy_relationships rows)"
  let ?A = "edge_list ALIGNED_TO Entity Policy (set ?N2) (alignments rows)"
  let ?R = "fold add_key ?A (fold add_key ?H (rel_keys (gr st)))"
  have n1: "fold add_key (entity_keys rows) ?N2 = ?N2"
    by (rule fold_add_key_absorb) (auto simp: set_fold_add_key)
  have n2: "fold add_key (policy_keys rows) ?N2 = ?N2"
    by (rule fold_add_key_absorb) (auto simp: set_fold_add_key)
  have h: "edge_list REPORTS_TO Entity Entity (set ?N2) (hierarchy_relationships rows) = ?H"
    by (rule edge_list_cong) (auto simp: set_fold_add_key policy_keys_def)
  have r1: "fold add_key ?H ?R = ?R"
    by (rule fold_add_key_absorb) (auto simp: set_fold_add_key)
  have r2: "fold add_key ?A ?R = ?R"
    by (rule fold_add_key_absorb) (auto simp: set_fold_add_key)
  have "rel_keys (gr (import_entities now' rows (import_entities now rows st)))
          = fold add_key ?A (fold add_key ?H ?R)"
    unfolding rel_keys_import_entities[of now' rows] node_keys_import_entities[of now rows st]
      n1 n2 h rel_keys_import_entities[of now rows st] ..
  then show ?thesis
    by (simp only: r1 r2 rel_keys_import_entities[of now rows st])
qed

lemma import_people_twice_nodes:
  "node_keys (gr (import_people now' rows (import_people now rows st)))
     = node_keys (gr (import_people now rows st))"
  by (simp add: node_keys_import_people fold_add_key_twice)

lemma import_people_twice_rels:
  "rel_keys (gr (import_people now' rows (import_people now rows st)))
     = rel_keys (gr (import_people now rows st))"
  unfolding rel_keys_import_people[of now' rows] import_people_twice_nodes 
  unfolding rel_keys_import_people[of now rows st]
  by (rule fold_add_key_twice)

lemma import_partners_twice_nodes:
  "node_keys (gr (import_partners parse' now' rows (import_partners parse now rows st)))
     = node_keys (gr (import_partners parse now rows st))"
  by (simp add: node_keys_import_partners fold_add_key_twice)

lemma import_partners_twice_rels:
  "rel_keys (gr (import_partners parse' now' rows (import_partners parse now rows st)))
     = rel_keys (gr (import_partners parse now rows st))"
  unfolding rel_keys_import_partners[of parse' now' rows] import_partners_twice_nodes 
  unfolding rel_keys_import_partners[of parse now rows st]
  by (rule fold_add_key_twice)

lemma set_edge_list:
  "set (edge_list t la lb N ps)
     = {(t, (la, x), (lb, y)) | x y. (Some x, Some y) \<in> set ps \<and> (la, x) \<in> N \<and> (lb, y) \<in> N}"
proof -
  have one: "set (case p of
                 (Some x, Some y) \<Rightarrow> if (la, x) \<in> N \<and> (lb, y) \<in> N then [(t, (la, x), (lb, y))] else []
               | _ \<Rightarrow> [])
      = {(t, (la, x), (lb, y)) | x y. p = (Some x, Some y) \<and> (la, x) \<in> N \<and> (lb, y) \<in> N}" for p
    by (cases p) (auto split: option.splits)
  show ?thesis
    unfolding edge_list_def set_concat set_map image_image one by blast
qed

section \<open>Reading a property back after a merge\<close>

lemma map_of_map_upd:
  "map_of (map (\<lambda>(r, p). if r = k then (r, u p) else (r, p)) xs) k'
     = (if k' = k then map_option u (map_of xs k) else map_of xs k')"
  by (induction xs) auto

lemma node_props_None: "k \<notin> set (node_keys g) \<Longrightarrow> node_props g k = None"
  by (simp add: node_props_def node_keys_def map_of_eq_None_iff)

lemma node_props_Some: "k \<in> set (node_keys g) \<Longrightarrow> \<exists>p. node_props g k = Some p"
  unfolding node_props_def node_keys_def
  by (metis map_of_eq_None_iff not_Some_eq set_map)

lemma node_props_merge_node:
  "node_props (merge_node l kn k u g) k'
     = (if k' = (l, k)
        then Some (u (case node_props g (l, k) of None \<Rightarrow> [kn \<mapsto> VStr k] | Some p \<Rightarrow> p))
        else node_props g k')"
proof (cases "(l, k) \<in> set (node_keys g)")
  case True
  then obtain p where "node_props g (l, k) = Some p"
    using node_props_Some by blast
  with True show ?thesis
    by (simp add: merge_node_def node_props_def map_of_map_upd)
next
  case False
  then have "node_props g (l, k) = None"
    by (rule node_props_None)
  with False show ?thesis
    by (auto simp: merge_node_def node_props_def map_add_def split: option.splits)
qed

lemma node_props_fold_merge_node:
  "find (\<lambda>r. f r = k) (rev rows) = Some r \<Longrightarrow>
     \<exists>p0. node_props (fold (\<lambda>r. merge_node l kn (f r) (u r)) rows g) (l, k) = Some (u r p0)"
proof (induction rows arbitrary: r rule: rev_induct)
  case Nil
  then show ?case by simp
next
  case (snoc x xs)
  show ?case
  proof (cases "f x = k")
    case True
    with snoc.prems have "r = x" by simp
    with True show ?thesis
      by (auto simp: node_props_merge_node)
  next
    case False
    with snoc.prems have "find (\<lambda>r. f r = k) (rev xs) = Some r" by simp
    from snoc.IH[OF this] False show ?thesis
      by (auto simp: node_props_merge_node)
  qed
qed

lemma nodes_merge_rel: "nodes (merge_rel t a b u g) = nodes g"
  by (simp add: merge_rel_def)

lemma nodes_rel_query: "nodes (rel_query t la lb ends upd rows g) = nodes g"
  unfolding rel_query_def
  by (induction rows arbitrary: g)
     (simp_all add: match_merge_rel_def nodes_merge_rel split: prod.splits option.splits)

lemma node_props_rel_query: "node_props (rel_query t la lb ends upd rows g) k = node_props g k"
  by (simp add: node_props_def nodes_rel_query)

lemma nodes_import_entities:
  "nodes (gr (import_entities now rows st))
     = nodes (create_policy_query (now 2) (all_policies rows) (query_simple (now 0) rows (gr st)))"
proof -
  have "nodes (create_policy_query t ps (rel_query ty la lb ends upd rs g))
      = nodes (create_policy_query t ps g)" for t ps ty la lb ends upd rs g
    unfolding create_policy_query_def
  proof (induction ps arbitrary: g rule: rev_induct)
    case Nil
    then show ?case by (simp add: nodes_rel_query)
  next
    case (snoc p ps)
    then show ?case
      by (simp add: merge_node_def node_keys_def)
  qed
  then show ?thesis
    by (simp add: gr_import_entities nodes_rel_query)
qed

lemma node_props_create_policy_query:
  "l \<noteq> Policy \<Longrightarrow> node_props (create_policy_query t ps g) (l, k) = node_props g (l, k)"
  unfolding create_policy_query_def
  by (induction ps arbitrary: g rule: rev_induct) (simp_all add: node_props_merge_node)

lemma node_props_import_entities:
  assumes "find (\<lambda>r. ent_entity_id r = k) (rev rows) = Some r"
  shows "\<exists>p0. node_props (gr (import_entities now rows st)) (Entity, k)
               = Some (entity_set (now 0) r p0)"
proof -
  have "node_props (gr (import_entities now rows st)) (Entity, k)
      = node_props (query_simple (now 0) rows (gr st)) (Entity, k)"
    unfolding node_props_def nodes_import_entities
    using node_props_create_policy_query[of Entity] by (simp add: node_props_def)
  then show ?thesis
    using node_props_fold_merge_node[OF assms, of Entity "''entity_id''" "entity_set (now 0)" "gr st"]
    by (simp add: query_simple_def)
qed

lemma node_props_import_people:
  assumes "find (\<lambda>r. per_person_id r = k) (rev rows) = Some r"
  shows "\<exists>p0. node_props (gr (import_people now rows st)) (Person, k)
               = Some (person_set (now 0) r p0)"
  using node_props_fold_merge_node[OF assms, of Person "''person_id''" "person_set (now 0)" "gr st"]
  by (simp add: gr_import_people node_props_rel_query people_query_def)

lemma node_props_import_partners:
  assumes "find (\<lambda>r. par_partner_id r = k) (rev rows) = Some r"
  shows "\<exists>p0. node_props (gr (import_partners parse now rows st)) (Company, k)
               = Some (company_set (now 0) r p0)"
  using node_props_fold_merge_node[OF assms, of Company "''partner_id''" "company_set (now 0)" "gr st"]
  by (simp add: gr_import_partners node_props_rel_query partners_query_def)

lemma find_rev_distinct:
  "distinct (map f rows) \<Longrightarrow> r \<in> set rows \<Longrightarrow> find (\<lambda>x. f x = f r) (rev rows) = Some r"
proof (induction rows rule: rev_induct)
  case Nil
  then show ?case by simp
next
  case (snoc x xs)
  then show ?case by (cases "f x = f r") (auto simp: image_iff)
qed

lemma person_set_confidence:
  "person_set t r p ''confidence_score'' = toFloat (per_confidence_score r)"
  by (simp add: person_set_def stamp_def)

lemma stored_confidence_import_people:
  assumes "find (\<lambda>x. per_person_id x = pid) (rev rows) = Some r"
  shows "stored_confidence (gr (import_people now rows st)) pid = toFloat (per_confidence_score r)"
proof -
  obtain p0 where "node_props (people_query (now 0) rows (gr st)) (Person, pid)
      = Some (person_set (now 0) r p0)"
    using node_props_fold_merge_node[OF assms, of Person "''person_id''" "person_set (now 0)" "gr st"]
    by (auto simp: people_query_def)
  then show ?thesis
    by (simp add: stored_confidence_def gr_import_people node_props_rel_query person_set_confidence)
qed

subsection \<open>Dropping duplicate keys\<close>

lemma set_drop_dups_from: "set (drop_dups_from f seen xs) \<subseteq> set xs"
  by (induction xs arbitrary: seen) auto

lemma drop_dups_from_unseen: "x \<in> set (drop_dups_from f seen xs) \<Longrightarrow> f x \<notin> set seen"
proof (induction xs arbitrary: seen)
  case Nil
  then show ?case by simp
next
  case (Cons a xs)
  show ?case
  proof (cases "f a \<in> set seen")
    case True
    with Cons.prems have "x \<in> set (drop_dups_from f seen xs)" by simp
    then show ?thesis by (rule Cons.IH)
  next
    case False
    with Cons.prems have "x = a \<or> x \<in> set (drop_dups_from f (f a # seen) xs)" by simp
    then show ?thesis
    proof
      assume "x = a" with False show ?thesis by simp
    next
      assume "x \<in> set (drop_dups_from f (f a # seen) xs)"
      from Cons.IH[OF this] show ?thesis by simp
    qed
  qed
qed

lemma distinct_drop_dups_from: "distinct (map f (drop_dups_from f seen xs))"
  by (induction xs arbitrary: seen) (auto dest: drop_dups_from_unseen)

lemma first_in_drop_dups_from:
  "find (\<lambda>x. f x = k) xs = Some r \<Longrightarrow> k \<notin> set seen \<Longrightarrow> r \<in> set (drop_dups_from f seen xs)"
  by (induction xs arbitrary: seen) (auto split: if_splits)

lemma in_drop_dups_from_first:
  "r \<in> set (drop_dups_from f seen xs) \<Longrightarrow> find (\<lambda>x. f x = f r) xs = Some r"
  by (induction xs arbitrary: seen) (auto split: if_splits dest: drop_dups_from_unseen)

lemma per_person_id_clean_person: "per_person_id (clean_person r) = per_person_id r"
  by (simp add: clean_person_def)

lemma distinct_clean_people: "distinct (map per_person_id (clean_people df))"
proof -
  have "map per_person_id (map clean_person xs) = map per_person_id xs" for xs
    by (induction xs) (simp_all add: per_person_id_clean_person)
  then have "distinct (map per_person_id (map clean_person (drop_duplicates per_person_id df)))"
    by (simp only: drop_duplicates_def distinct_drop_dups_from)
  then show ?thesis
    unfolding clean_people_def by (rule distinct_map_filter)
qed

lemma kept_by_clean_people:
  assumes "find (\<lambda>x. per_person_id x = pid) df = Some r"
    and "per_name r \<noteq> None" and "per_entity_id r \<noteq> None"
  shows "clean_person r \<in> set (clean_people df)"
proof -
  have "r \<in> set (drop_duplicates per_person_id df)"
    using first_in_drop_dups_from[OF assms(1), of "[]"] by (simp add: drop_duplicates_def)
  with assms(2,3) show ?thesis
    by (auto simp: clean_people_def clean_person_def)
qed

subsection \<open>Relationship properties\<close>

lemma find_SomeD: "find P xs = Some r \<Longrightarrow> P r \<and> r \<in> set xs"
  by (induction xs) (auto split: if_splits)

lemma rel_props_None: "k \<notin> set (rel_keys g) \<Longrightarrow> rel_props g k = None"
  by (simp add: rel_props_def rel_keys_def map_of_eq_None_iff)

lemma rel_props_Some: "k \<in> set (rel_keys g) \<Longrightarrow> \<exists>p. rel_props g k = Some p"
  unfolding rel_props_def rel_keys_def
  by (metis map_of_eq_None_iff not_Some_eq set_map)

lemma rel_props_merge_rel:
  "rel_props (merge_rel t a b u g) k'
     = (if a \<in> set (node_keys g) \<and> b \<in> set (node_keys g) \<and> k' = (t, a, b)
        then Some (u (case rel_props g (t, a, b) of None \<Rightarrow> Map.empty | Some p \<Rightarrow> p))
        else rel_props g k')"
proof (cases "(t, a, b) \<in> set (rel_keys g)")
  case True
  then obtain p where "rel_props g (t, a, b) = Some p"
    using rel_props_Some by blast
  with True show ?thesis
    by (simp add: merge_rel_def rel_props_def map_of_map_upd)
next
  case False
  then have "rel_props g (t, a, b) = None"
    by (rule rel_props_None)
  with False show ?thesis
    by (auto simp: merge_rel_def rel_props_def map_add_def split: option.splits)
qed

lemma rel_props_rel_query:
  assumes "find (\<lambda>r. ends r = (Some x, Some y)) (rev rows) = Some r"
    and "(la, x) \<in> set (node_keys g)" and "(lb, y) \<in> set (node_keys g)"
  shows "\<exists>p0. rel_props (rel_query t la lb ends upd rows g) (t, (la, x), (lb, y)) = Some (upd r p0)"
  using assms(1)
proof (induction rows arbitrary: r rule: rev_induct)
  case Nil
  then show ?case by simp
next
  case (snoc z zs)
  let ?g = "rel_query t la lb ends upd zs g"
  have step: "rel_query t la lb ends upd (zs @ [z]) g
      = match_merge_rel t la (fst (ends z)) lb (snd (ends z)) (upd z) ?g"
    by (simp add: rel_query_def)
  have nk: "node_keys ?g = node_keys g"
    by (rule node_keys_rel_query)
  show ?case
  proof (cases "ends z = (Some x, Some y)")
    case True
    with snoc.prems have "r = z" by simp
    with True show ?thesis
      unfolding step
      by (auto simp: match_merge_rel_def rel_props_merge_rel nk assms(2,3))
  next
    case False
    with snoc.prems have "find (\<lambda>r. ends r = (Some x, Some y)) (rev zs) = Some r" by simp
    from snoc.IH[OF this] obtain p0 where
      p0: "rel_props ?g (t, (la, x), (lb, y)) = Some (upd r p0)" by blast
    obtain a b where e: "ends z = (a, b)" by (cases "ends z")
    with False have ne: "\<not> (a = Some x \<and> b = Some y)" by simp
    show ?thesis
      unfolding step using p0 ne
      by (auto simp: e match_merge_rel_def rel_props_merge_rel split: option.splits)
  qed
qed

lemma partnership_set_value:
  "partnership_set parse t r p ''contract_value_rm'' = toInteger parse (par_contract_value_rm r)"
  by (simp add: partnership_set_def stamp_def)

lemma stored_contract_value_import_partners:
  assumes "find (\<lambda>q. partnership_ends q = (Some pid, Some eid)) (rev rows) = Some r"
    and "(Entity, eid) \<in> set (node_keys (gr st))"
  shows "stored_contract_value (gr (import_partners parse now rows st)) pid eid
           = toInteger parse (par_contract_value_rm r)
         \<and> (PARTNERS_WITH, (Company, pid), (Entity, eid))
             \<in> set (rel_keys (gr (import_partners parse now rows st)))"
proof -
  let ?g1 = "partners_query (now 0) rows (gr st)"
  have r_in: "r \<in> set rows" and r_ends: "partnership_ends r = (Some pid, Some eid)"
    using find_SomeD[OF assms(1)] by simp_all
  have nk: "node_keys ?g1 = fold add_key (map (\<lambda>r. (Company, par_partner_id r)) rows) (node_keys (gr st))"
    by (simp add: partners_query_def node_keys_fold_merge_node)
  have e: "(Entity, eid) \<in> set (node_keys ?g1)"
    using assms(2) by (simp add: nk set_fold_add_key)
  have "par_partner_id r = pid"
    using r_ends by (simp add: partnership_ends_def)
  with r_in have c: "(Company, pid) \<in> set (node_keys ?g1)"
    by (auto simp: nk set_fold_add_key)
  obtain p0 where p0: "rel_props (gr (import_partners parse now rows st))
      (PARTNERS_WITH, (Company, pid), (Entity, eid)) = Some (partnership_set parse (now 1) r p0)"
    using rel_props_rel_query[OF assms(1) c e, of PARTNERS_WITH "partnership_set parse (now 1)"]
    by (auto simp: gr_import_partners)
  then have "(PARTNERS_WITH, (Company, pid), (Entity, eid))
      \<in> set (rel_keys (gr (import_partners parse now rows st)))"
    using rel_props_None by fastforce
  with p0 show ?thesis
    by (simp add: stored_contract_value_def partnership_set_value)
qed

section \<open>C1: ingestion is idempotent\<close>

lemma distinct_node_keys_import_entities:
  "distinct (node_keys (gr st)) \<Longrightarrow> distinct (node_keys (gr (import_entities now rows st)))"
  by (simp add: node_keys_import_entities distinct_fold_add_key)

lemma distinct_rel_keys_import_entities:
  "distinct (rel_keys (gr st)) \<Longrightarrow> distinct (rel_keys (gr (import_entities now rows st)))"
  by (simp add: rel_keys_import_entities distinct_fold_add_key)

lemma distinct_node_keys_import_people:
  "distinct (node_keys (gr st)) \<Longrightarrow> distinct (node_keys (gr (import_people now rows st)))"
  by (simp add: node_keys_import_people distinct_fold_add_key)

lemma distinct_rel_keys_import_people:
  "distinct (rel_keys (gr st)) \<Longrightarrow> distinct (rel_keys (gr (import_people now rows st)))"
  by (simp only: rel_keys_import_people[of now rows st] distinct_fold_add_key)

lemma distinct_node_keys_import_partners:
  "distinct (node_keys (gr st)) \<Longrightarrow> distinct (node_keys (gr (import_partners parse now rows st)))"
  by (simp add: node_keys_import_partners distinct_fold_add_key)

lemma distinct_rel_keys_import_partners:
  "distinct (rel_keys (gr st)) \<Longrightarrow> distinct (rel_keys (gr (import_partners parse now rows st)))"
  by (simp only: rel_keys_import_partners[of parse now rows st] distinct_fold_add_key)

text \<open>
  Claim C1. For every batch of entity, person or partner rows, every store and every
  pair of statement clocks, running the import operation a second time on the same batch
  leaves the list of node identities and the list of relationship identities exactly as
  they were after the first run (so the same node set and edge set, in the same order).
  Moreover an import never introduces a duplicate: from a store whose node identities
  (relationship identities) are pairwise distinct, each import yields a store whose node
  identities (relationship identities) are pairwise distinct. And attributes are
  updated in place: after an import, the node of an identity key that occurs in the
  batch carries, for every attribute the statement sets, the value of the last row of
  the batch with that key (its other attributes are those of some earlier property map).
\<close>

theorem ingestion_idempotent:
  "node_keys (gr (import_entities now' erows (import_entities now erows st)))
     = node_keys (gr (import_entities now erows st))
   \<and> rel_keys (gr (import_entities now' erows (import_entities now erows st)))
     = rel_keys (gr (import_entities now erows st))
   \<and> node_keys (gr (import_people now' prows (import_people now prows st)))
     = node_keys (gr (import_people now prows st))
   \<and> rel_keys (gr (import_people now' prows (import_people now prows st)))
     = rel_keys (gr (import_people now prows st))
   \<and> node_keys (gr (import_partners parse now' qrows (import_partners parse now qrows st)))
     = node_keys (gr (import_partners parse now qrows st))
   \<and> rel_keys (gr (import_partners parse now' qrows (import_partners parse now qrows st)))
     = rel_keys (gr (import_partners parse now qrows st))
   \<and> (distinct (node_keys (gr st)) \<longrightarrow>
        distinct (node_keys (gr (import_entities now erows st)))
      \<and> distinct (node_keys (gr (import_people now prows st)))
      \<and> distinct (node_keys (gr (import_partners parse now qrows st))))
   \<and> (distinct (rel_keys (gr st)) \<longrightarrow>
        distinct (rel_keys (gr (import_entities now erows st)))
      \<and> distinct (rel_keys (gr (import_people now prows st)))
      \<and> distinct (rel_keys (gr (import_partners parse now qrows st))))
   \<and> (find (\<lambda>x. ent_entity_id x = ke) (rev erows) = Some re \<longrightarrow>
        (\<exists>p0. node_props (gr (import_entities now erows st)) (Entity, ke)
                = Some (entity_set (now 0) re p0)))
   \<and> (find (\<lambda>x. per_person_id x = kp) (rev prows) = Some rp \<longrightarrow>
        (\<exists>p0. node_props (gr (import_people now prows st)) (Person, kp)
                = Some (person_set (now 0) rp p0)))
   \<and> (find (\<lambda>x. par_partner_id x = kq) (rev qrows) = Some rq \<longrightarrow>
        (\<exists>p0. node_props (gr (import_partners parse now qrows st)) (Company, kq)
                = Some (company_set (now 0) rq p0)))"
  using import_entities_twice_nodes[of now' erows now st]
    import_entities_twice_rels[of now' erows now st]
    import_people_twice_nodes[of now' prows now st]
    import_people_twice_rels[of now' prows now st]
    import_partners_twice_nodes[of parse now' qrows parse now st]
    import_partners_twice_rels[of parse now' qrows parse now st]
    distinct_node_keys_import_entities[of st now erows]
    distinct_rel_keys_import_entities[of st now erows]
    distinct_node_keys_import_people[of st now prows]
    distinct_rel_keys_import_people[of st now prows]
    distinct_node_keys_import_partners[of st parse now qrows]
    distinct_rel_keys_import_partners[of st parse now qrows]
    node_props_import_entities[of ke erows re now st]
    node_props_import_people[of kp prows rp now st]
    node_props_import_partners[of kq qrows rq parse now st]
  by blast

theorem ingestion_idempotent_witness:
  "distinct (node_keys (gr state0)) \<and> distinct (rel_keys (gr state0))
   \<and> distinct (node_keys (gr (import_entities id sample_entities state0)))
   \<and> distinct (rel_keys (gr (import_entities id sample_entities state0)))
   \<and> distinct (node_keys (gr (import_people id sample_people state0)))
   \<and> distinct (rel_keys (gr (import_partners no_parse id sample_partners state0)))
   \<and> node_keys (gr (import_entities (\<lambda>k. k + 10) sample_entities
                      (import_entities id sample_entities state0)))
      = node_keys (gr (import_entities id sample_entities state0))"
proof -
  have h1: "distinct (node_keys (gr state0))"
    by (simp add: state0_def empty_graph_def node_keys_def)
  have h2: "distinct (rel_keys (gr state0))"
    by (simp add: state0_def empty_graph_def rel_keys_def)
  show ?thesis
    using h1 h2
      ingestion_idempotent[of "\<lambda>k. k + 10" sample_entities id state0 sample_people
        no_parse sample_partners]
    by blast
qed

section \<open>C2: where the confidence score is clamped\<close>

lemma stored_confidence_pipeline:
  assumes "find (\<lambda>x. per_person_id x = pid) df = Some r"
    and "per_name r \<noteq> None" and "per_entity_id r \<noteq> None"
  shows "stored_confidence (gr (import_people now (clean_people df) st)) pid
           = toFloat (clip 0 1 (per_confidence_score r))"
proof -
  have pid: "per_person_id r = pid"
    using find_SomeD[OF assms(1)] by simp
  have "clean_person r \<in> set (clean_people df)"
    using assms by (rule kept_by_clean_people)
  then have "find (\<lambda>x. per_person_id x = per_person_id (clean_person r)) (rev (clean_people df))
      = Some (clean_person r)"
    by (rule find_rev_distinct[OF distinct_clean_people])
  then have "find (\<lambda>x. per_person_id x = pid) (rev (clean_people df)) = Some (clean_person r)"
    by (simp add: per_person_id_clean_person pid)
  then have "stored_confidence (gr (import_people now (clean_people df) st)) pid
      = toFloat (per_confidence_score (clean_person r))"
    by (rule stored_confidence_import_people)
  then show ?thesis
    by (simp add: clean_person_def)
qed

text \<open>
  Claim C2 as stated fails. \<^verbatim>\<open>import_people\<close> only converts the score with
  \<^verbatim>\<open>toFloat\<close>: a row with confidence 1.4 is stored with 1.4, not 1.0, and a row with -0.2
  is stored with -0.2, not 0.0. And in the pipeline (\<^verbatim>\<open>_clean_people\<close>, then
  \<^verbatim>\<open>import_people\<close>) a later row of a person already seen is dropped: of two rows for
  P003 with confidence 0.5 and 0.9 the stored value is 0.5, which is not the value of the
  second row.
\<close>

theorem import_people_stores_unclamped:
  "stored_confidence (gr (import_people id [person_14, person_neg] state0)) ''P001''
     = Some (VFlt (14 / 10))
   \<and> stored_confidence (gr (import_people id [person_14, person_neg] state0)) ''P001''
     \<noteq> Some (VFlt 1)
   \<and> stored_confidence (gr (import_people id [person_14, person_neg] state0)) ''P002''
     = Some (VFlt (- 2 / 10))
   \<and> stored_confidence (gr (import_people id [person_14, person_neg] state0)) ''P002''
     \<noteq> Some (VFlt 0)
   \<and> stored_confidence
        (gr (import_people id (clean_people [person_half, person_again]) state0)) ''P003''
     = Some (VFlt (5 / 10))
   \<and> stored_confidence
        (gr (import_people id (clean_people [person_half, person_again]) state0)) ''P003''
     \<noteq> toFloat (clip 0 1 (per_confidence_score person_again))"
proof -
  have a: "stored_confidence (gr (import_people id [person_14, person_neg] state0)) ''P001''
     = toFloat (per_confidence_score person_14)"
    by (rule stored_confidence_import_people) (simp add: person_14_def person_neg_def)
  have b: "stored_confidence (gr (import_people id [person_14, person_neg] state0)) ''P002''
     = toFloat (per_confidence_score person_neg)"
    by (rule stored_confidence_import_people) (simp add: person_14_def person_neg_def)
  have f: "find (\<lambda>x. per_person_id x = ''P003'') [person_half, person_again] = Some person_half"
    by (simp add: person_half_def)
  have n: "per_name person_half \<noteq> None" "per_entity_id person_half \<noteq> None"
    by (simp_all add: person_half_def person_14_def)
  have c: "stored_confidence
        (gr (import_people id (clean_people [person_half, person_again]) state0)) ''P003''
     = toFloat (clip 0 1 (per_confidence_score person_half))"
    using f n by (rule stored_confidence_pipeline)
  show ?thesis
    unfolding a b c
    by (simp add: person_14_def person_neg_def person_half_def person_again_def clip_def)
qed

text \<open>
  Claim C2, amended. The clamping is done by the pipeline's cleaning step: when the batch
  goes through \<^verbatim>\<open>_clean_people\<close> and then \<^verbatim>\<open>import_people\<close>, and \<open>r\<close> is the first row
  of the batch with person id \<open>pid\<close> and has a name and an entity id (so cleaning keeps
  it), the confidence stored for \<open>pid\<close> is that of \<open>r\<close> clipped into [0,1]: 0 below 0,
  1 above 1, unchanged in between.
\<close>

theorem confidence_clamped_by_cleaning:
  assumes "find (\<lambda>x. per_person_id x = pid) df = Some r"
    and "per_name r \<noteq> None" and "per_entity_id r \<noteq> None"
  shows "stored_confidence (gr (import_people now (clean_people df) st)) pid
           = toFloat (clip 0 1 (per_confidence_score r))
       \<and> (\<forall>q. per_confidence_score r = Some q \<longrightarrow>
            (\<exists>v. stored_confidence (gr (import_people now (clean_people df) st)) pid = Some (VFlt v)
                 \<and> 0 \<le> v \<and> v \<le> 1
                 \<and> (q < 0 \<longrightarrow> v = 0) \<and> (1 < q \<longrightarrow> v = 1) \<and> (0 \<le> q \<and> q \<le> 1 \<longrightarrow> v = q)))"
proof -
  have eq: "stored_confidence (gr (import_people now (clean_people df) st)) pid
      = toFloat (clip 0 1 (per_confidence_score r))"
    using assms by (rule stored_confidence_pipeline)
  show ?thesis
    unfolding eq by (auto simp: clip_def)
qed

theorem confidence_clamped_by_cleaning_witness:
  "find (\<lambda>x. per_person_id x = ''P001'') [person_14, person_neg] = Some person_14
   \<and> per_name person_14 \<noteq> None \<and> per_entity_id person_14 \<noteq> None
   \<and> stored_confidence (gr (import_people id (clean_people [person_14, person_neg]) state0))
        ''P001'' = Some (VFlt 1)"
proof -
  have h1: "find (\<lambda>x. per_person_id x = ''P001'') [person_14, person_neg] = Some person_14"
    by (simp add: person_14_def person_neg_def)
  have h2: "per_name person_14 \<noteq> None" and h3: "per_entity_id person_14 \<noteq> None"
    by (simp_all add: person_14_def)
  show ?thesis
    using h1 h2 h3 confidence_clamped_by_cleaning[OF h1 h2 h3, of id state0]
    by (simp add: person_14_def clip_def)
qed

section \<open>C6: a contract value that is not a number\<close>


lemma parse_not_a_number: "parse_decimal ''not a number'' = None"
  by (simp add: parse_decimal_def)

lemma agn001_in_state1: "(Entity, ''AGN001'') \<in> set (node_keys (gr state1))"
proof -
  have "(Entity, ''AGN001'') \<in> set (entity_keys sample_entities)"
    by (simp add: entity_keys_def sample_entities_def)
  then show ?thesis
    unfolding state1_def node_keys_import_entities set_fold_add_key by blast
qed

lemma find_refine:
  assumes "find (\<lambda>x. f x = f r) xs = Some r" and imp: "\<And>x. g x = g r \<Longrightarrow> f x = f r"
  shows "find (\<lambda>x. g x = g r) xs = Some r"
  using assms(1)
proof (induction xs)
  case Nil
  then show ?case by simp
next
  case (Cons a xs)
  show ?case
  proof (cases "f a = f r")
    case True
    with Cons.prems have "r = a" by simp
    then show ?thesis by simp
  next
    case False
    with imp have "g a \<noteq> g r" by blast
    moreover from False Cons.prems have "find (\<lambda>x. f x = f r) xs = Some r" by simp
    ultimately show ?thesis using Cons.IH by simp
  qed
qed

lemma par_partner_id_clean_partner: "par_partner_id (clean_partner tn cy r) = par_partner_id r"
  by (simp add: clean_partner_def)

lemma distinct_clean_partners: "distinct (map par_partner_id (clean_partners tn cy df))"
proof -
  have "map par_partner_id (map (clean_partner tn cy) xs) = map par_partner_id xs" for xs
    by (induction xs) (simp_all add: par_partner_id_clean_partner)
  then have "distinct (map par_partner_id (map (clean_partner tn cy) (drop_duplicates par_partner_id df)))"
    by (simp only: drop_duplicates_def distinct_drop_dups_from)
  then show ?thesis
    unfolding clean_partners_def by (rule distinct_map_filter)
qed

lemma kept_by_clean_partners:
  assumes "find (\<lambda>x. par_partner_id x = pid) df = Some r"
    and "par_company_name r \<noteq> None" and "par_entity_id r \<noteq> None"
  shows "clean_partner tn cy r \<in> set (clean_partners tn cy df)"
proof -
  have "r \<in> set (drop_duplicates par_partner_id df)"
    using first_in_drop_dups_from[OF assms(1), of "[]"] by (simp add: drop_duplicates_def)
  with assms(2,3) show ?thesis
    by (auto simp: clean_partners_def clean_partner_def)
qed


lemma set_rel_keys_import_partners:
  "set (rel_keys (gr (import_partners parse now rows st)))
     = set (rel_keys (gr st))
       \<union> {(PARTNERS_WITH, (Company, par_partner_id q), (Entity, e)) | q e.
            q \<in> set rows \<and> par_entity_id q = Some e \<and> (Entity, e) \<in> set (node_keys (gr st))}"
proof -
  have "set (edge_list PARTNERS_WITH Company Entity
               (set (node_keys (gr (import_partners parse now rows st)))) (map partnership_ends rows))
      = {(PARTNERS_WITH, (Company, par_partner_id q), (Entity, e)) | q e.
            q \<in> set rows \<and> par_entity_id q = Some e \<and> (Entity, e) \<in> set (node_keys (gr st))}"
    unfolding set_edge_list node_keys_import_partners set_fold_add_key
    by (auto simp: partnership_ends_def image_iff; metis)
  then show ?thesis
    unfolding rel_keys_import_partners[of parse now rows st] set_fold_add_key by blast
qed

lemma no_partnership_in_state1: "(PARTNERS_WITH, a, b) \<notin> set (rel_keys (gr state1))"
  unfolding state1_def rel_keys_import_entities set_fold_add_key set_edge_list
  by (simp add: state0_def empty_graph_def rel_keys_def)

lemma min001_in_state1: "(Entity, ''MIN001'') \<in> set (node_keys (gr state1))"
proof -
  have "(Entity, ''MIN001'') \<in> set (entity_keys sample_entities)"
    by (simp add: entity_keys_def sample_entities_def)
  then show ?thesis
    unfolding state1_def node_keys_import_entities set_fold_add_key by blast
qed

lemma clean_two_partners:
  "clean_partners parse_decimal_rat 2026 [partner_first, partner_second]
     = [clean_partner parse_decimal_rat 2026 partner_first]"
  by (simp add: clean_partners_def drop_duplicates_def clean_partner_def partner_first_def
        partner_second_def partner_text_def)

lemma second_partner_dropped:
  "(PARTNERS_WITH, (Company, ''COMP001''), (Entity, ''MIN001''))
     \<notin> set (rel_keys (gr (import_partners parse_decimal id
              (clean_partners parse_decimal_rat 2026 [partner_first, partner_second]) state1)))"
  unfolding clean_two_partners set_rel_keys_import_partners
  by (simp add: no_partnership_in_state1 clean_partner_def partner_first_def partner_text_def)

text \<open>
  Claim C6 as stated fails. On \<^verbatim>\<open>import_partners\<close>, for the contract value
  \<^verbatim>\<open>"not a number"\<close> the statement's \<^verbatim>\<open>toInteger\<close> yields \<^verbatim>\<open>null\<close>, so the relationship
  is created but its \<open>contract_value_rm\<close> is left unset; it is not 0. And in the
  pipeline (\<^verbatim>\<open>_clean_partners\<close>, then \<^verbatim>\<open>import_partners\<close>) a second row of a partner
  already seen is dropped with its relationship, although its entity exists.
\<close>

theorem import_partners_leaves_value_unset:
  "stored_contract_value (gr (import_partners parse_decimal id [partner_text] state1))
      ''COMP001'' ''AGN001'' = None
   \<and> stored_contract_value (gr (import_partners parse_decimal id [partner_text] state1))
      ''COMP001'' ''AGN001'' \<noteq> Some (VInt 0)
   \<and> (PARTNERS_WITH, (Company, ''COMP001''), (Entity, ''AGN001''))
      \<in> set (rel_keys (gr (import_partners parse_decimal id [partner_text] state1)))
   \<and> par_contract_value_rm partner_second = CStr ''not a number''
   \<and> par_entity_id partner_second = Some ''MIN001''
   \<and> (Entity, ''MIN001'') \<in> set (node_keys (gr state1))
   \<and> (PARTNERS_WITH, (Company, ''COMP001''), (Entity, ''MIN001''))
      \<notin> set (rel_keys (gr (import_partners parse_decimal id
               (clean_partners parse_decimal_rat 2026 [partner_first, partner_second]) state1)))"
proof -
  have f: "find (\<lambda>q. partnership_ends q = (Some ''COMP001'', Some ''AGN001'')) (rev [partner_text])
      = Some partner_text"
    by (simp add: partnership_ends_def partner_text_def)
  have v: "toInteger parse_decimal (par_contract_value_rm partner_text) = None"
    by (simp add: partner_text_def parse_not_a_number)
  have s: "par_contract_value_rm partner_second = CStr ''not a number''"
    "par_entity_id partner_second = Some ''MIN001''"
    by (simp_all add: partner_second_def partner_text_def)
  show ?thesis
    using stored_contract_value_import_partners[OF f agn001_in_state1, of parse_decimal id]
      s min001_in_state1 second_partner_dropped
    unfolding v by simp
qed

text \<open>
  Claim C6, amended. The default 0 comes from the pipeline's cleaning step. When the batch
  goes through \<^verbatim>\<open>_clean_partners\<close> and then \<^verbatim>\<open>import_partners\<close>, and \<open>r\<close> is the first
  row of the batch with partner id \<open>pid\<close>, has a company name, points at an entity
  \<open>eid\<close> that is an Entity node of the store, and carries as contract value a string that
  pandas' parser rejects, then the Company node and the \<^verbatim>\<open>PARTNERS_WITH\<close> relationship
  from \<open>pid\<close> to \<open>eid\<close> exist afterwards and the stored contract value is the integer 0.
  Both operations are total functions of the model: no branch raises.
\<close>

theorem contract_value_zero_by_cleaning:
  assumes "find (\<lambda>x. par_partner_id x = pid) df = Some r"
    and "par_company_name r \<noteq> None"
    and "par_entity_id r = Some eid"
    and "(Entity, eid) \<in> set (node_keys (gr st))"
    and "par_contract_value_rm r = CStr s"
    and "to_num s = None"
  shows "stored_contract_value
           (gr (import_partners parse now (clean_partners to_num cy df) st)) pid eid = Some (VInt 0)
       \<and> (PARTNERS_WITH, (Company, pid), (Entity, eid))
           \<in> set (rel_keys (gr (import_partners parse now (clean_partners to_num cy df) st)))
       \<and> (Company, pid)
           \<in> set (node_keys (gr (import_partners parse now (clean_partners to_num cy df) st)))"
proof -
  let ?c = "clean_partner to_num cy r"
  let ?df = "clean_partners to_num cy df"
  have pid: "par_partner_id r = pid"
    using find_SomeD[OF assms(1)] by simp
  have ends: "partnership_ends ?c = (Some pid, Some eid)"
    by (simp add: partnership_ends_def clean_partner_def pid assms(3))
  have "par_entity_id r \<noteq> None"
    by (simp add: assms(3))
  then have kept: "?c \<in> set ?df"
    by (rule kept_by_clean_partners[OF assms(1,2)])
  have "find (\<lambda>x. par_partner_id x = par_partner_id ?c) (rev ?df) = Some ?c"
    by (rule find_rev_distinct[OF distinct_clean_partners kept])
  then have "find (\<lambda>x. partnership_ends x = partnership_ends ?c) (rev ?df) = Some ?c"
    by (rule find_refine[where f = par_partner_id and g = partnership_ends])
       (simp add: partnership_ends_def)
  then have f: "find (\<lambda>x. partnership_ends x = (Some pid, Some eid)) (rev ?df) = Some ?c"
    by (simp add: ends)
  have v: "toInteger parse (par_contract_value_rm ?c) = Some (VInt 0)"
    by (simp add: clean_partner_def assms(5,6) trunc_def)
  have "(Company, par_partner_id ?c) \<in> (\<lambda>r. (Company, par_partner_id r)) ` set ?df"
    using kept by (rule imageI)
  then have n: "(Company, pid) \<in> set (node_keys (gr (import_partners parse now ?df st)))"
    by (simp add: node_keys_import_partners set_fold_add_key par_partner_id_clean_partner pid)
  show ?thesis
    using stored_contract_value_import_partners[OF f assms(4), of parse now] v n
    by simp
qed

theorem contract_value_zero_by_cleaning_witness:
  "find (\<lambda>x. par_partner_id x = ''COMP001'') [partner_text] = Some partner_text
   \<and> par_company_name partner_text \<noteq> None
   \<and> par_entity_id partner_text = Some ''AGN001''
   \<and> (Entity, ''AGN001'') \<in> set (node_keys (gr state1))
   \<and> par_contract_value_rm partner_text = CStr ''not a number''
   \<and> parse_decimal_rat ''not a number'' = None
   \<and> stored_contract_value
        (gr (import_partners parse_decimal id
               (clean_partners parse_decimal_rat 2026 [partner_text]) state1))
        ''COMP001'' ''AGN001'' = Some (VInt 0)
   \<and> (PARTNERS_WITH, (Company, ''COMP001''), (Entity, ''AGN001''))
        \<in> set (rel_keys (gr (import_partners parse_decimal id
               (clean_partners parse_decimal_rat 2026 [partner_text]) state1)))"
proof -
  have h1: "find (\<lambda>x. par_partner_id x = ''COMP001'') [partner_text] = Some partner_text"
    by (simp add: partner_text_def)
  have h2: "par_company_name partner_text \<noteq> None"
    by (simp add: partner_text_def)
  have h3: "par_entity_id partner_text = Some ''AGN001''"
    by (simp add: partner_text_def)
  have h5: "par_contract_value_rm partner_text = CStr ''not a number''"
    by (simp add: partner_text_def)
  have h6: "parse_decimal_rat ''not a number'' = None"
    by (simp add: parse_decimal_rat_def parse_not_a_number)
  show ?thesis
    using h1 h2 h3 agn001_in_state1 h5 h6
      contract_value_zero_by_cleaning[where to_num = parse_decimal_rat and s = "''not a number''"
        and parse = parse_decimal and now = id and cy = 2026, OF h1 h2 h3 agn001_in_state1 h5 h6]
    by simp
qed

section \<open>C4: a \<^verbatim>\<open>REPORTS_TO\<close> relationship needs both of its ends\<close>


lemma in_hierarchy_relationships:
  "(Some c, Some p) \<in> set (hierarchy_relationships rows)
     \<longleftrightarrow> (\<exists>r \<in> set rows. ent_entity_id r = c \<and> ent_parent_org r = Some p)"
  by (auto simp: hierarchy_relationships_def)

lemma rel_keys_create_entity_hierarchy:
  "set (rel_keys (gr (create_entity_hierarchy t rows st)))
     = set (rel_keys (gr st))
       \<union> {(REPORTS_TO, (Entity, c), (Entity, p)) | c p.
            (\<exists>r \<in> set rows. ent_entity_id r = c \<and> ent_parent_org r = Some p)
            \<and> (Entity, c) \<in> set (node_keys (gr st)) \<and> (Entity, p) \<in> set (node_keys (gr st))}"
  by (simp add: gr_create_entity_hierarchy rel_keys_rel_query set_fold_add_key set_edge_list
        in_hierarchy_relationships Un_commute)

lemma entity_in_keys_after_import:
  "(Entity, x) \<in> set (node_keys (gr (import_entities now rows st)))
     \<longleftrightarrow> (Entity, x) \<in> set (entity_keys rows) \<or> (Entity, x) \<in> set (node_keys (gr st))"
  by (auto simp: node_keys_import_entities set_fold_add_key policy_keys_def)

lemma set_alignments:
  "(Some e, Some n) \<in> set (alignments rows)
     \<longleftrightarrow> (\<exists>r \<in> set rows. ent_entity_id r = e \<and> n \<in> set (row_policies r))"
  by (auto simp: alignments_def)

lemma set_all_policies: "set (all_policies rows) = (\<Union>r \<in> set rows. set (row_policies r))"
  by (simp add: all_policies_def)

lemma reports_to_after_import:
  "(REPORTS_TO, a, b) \<in> set (rel_keys (gr (import_entities now rows st)))
     \<longleftrightarrow> (REPORTS_TO, a, b) \<in> set (rel_keys (gr st))
         \<or> (\<exists>c p. a = (Entity, c) \<and> b = (Entity, p)
               \<and> (\<exists>r \<in> set rows. ent_entity_id r = c \<and> ent_parent_org r = Some p)
               \<and> (Entity, p) \<in> set (node_keys (gr (import_entities now rows st))))"
proof -
  have c_in: "(Entity, ent_entity_id r) \<in> set (entity_keys rows)" if "r \<in> set rows" for r
    using that by (auto simp: entity_keys_def)
  show ?thesis
    unfolding rel_keys_import_entities set_fold_add_key set_edge_list in_hierarchy_relationships
      entity_in_keys_after_import
    unfolding set_fold_add_key
    using c_in by auto
qed


lemma logs_log_msg: "logs (log_msg lv m n st) = logs st @ [(lv, m, n)]"
  by (simp add: log_msg_def)

lemma logs_gr_update: "logs (st\<lparr>gr := g\<rparr>) = logs st"
  by simp

lemma invalid_parent_warned:
  assumes "r \<in> set rows" and "ent_parent_org r = Some p" and "p \<notin> set (map ent_entity_id rows)"
  shows "0 < length (invalid_parents rows)
       \<and> (WARNING, ''Found {n} entities with invalid parent_org'', Some (length (invalid_parents rows)))
           \<in> set (logs (validate_relationships rows people partners st))"
proof -
  have "r \<in> set (invalid_parents rows)"
    using assms by (simp add: invalid_parents_def)
  then have pos: "0 < length (invalid_parents rows)"
    by (cases "invalid_parents rows") auto
  then show ?thesis
    by (simp add: validate_relationships_def warn_if_any_def logs_log_msg)
qed

lemma warnings_log_info: "warnings (log_msg INFO m n st) = warnings st"
  by (simp add: warnings_def log_msg_def)

lemma warnings_gr_update: "warnings (st\<lparr>gr := g\<rparr>) = warnings st"
  by (simp add: warnings_def)

lemma warnings_create_entity_hierarchy:
  "warnings (create_entity_hierarchy t rows st) = warnings st"
  by (simp add: create_entity_hierarchy_def Let_def warnings_log_info warnings_gr_update)

lemma warnings_create_policy_alignments:
  "warnings (create_policy_alignments t1 t2 rows st) = warnings st"
  by (simp add: create_policy_alignments_def Let_def warnings_log_info warnings_gr_update)

lemma warnings_import_entities: "warnings (import_entities now rows st) = warnings st"
  by (simp add: import_entities_def Let_def warnings_log_info warnings_gr_update
        warnings_create_entity_hierarchy warnings_create_policy_alignments)

text \<open>
  Claim C4. Let \<open>r\<close> be a row of the entity batch with parent \<open>p\<close>, and let the store hold
  no \<^verbatim>\<open>REPORTS_TO\<close> relationship from \<open>r\<close>'s entity to \<open>p\<close> yet. Then
  \<^verbatim>\<open>_create_entity_hierarchy\<close> leaves such a relationship in the store if and only if both
  the child and the parent are Entity nodes of the store it runs on. For the whole
  \<^verbatim>\<open>import_entities\<close> (which merges the batch's nodes first, so the child always
  exists) the relationship exists afterwards if and only if the parent is an Entity node.
  When the parent is not an Entity node, no relationship is produced, and
  \<^verbatim>\<open>_validate_relationships\<close>, run on the same batch as the pipeline does, logs the warning
  that counts the entities with an invalid \<open>parent_org\<close> (the count is positive). The
  warning is the validation's: \<^verbatim>\<open>import_entities\<close> itself writes only \<^verbatim>\<open>INFO\<close> records, so
  the warnings of the log are the same before and after it. All functions involved are
  total: there is no error branch.
\<close>

theorem reports_to_iff_both_exist:
  assumes "r \<in> set rows" and "ent_parent_org r = Some p"
    and "(REPORTS_TO, (Entity, ent_entity_id r), (Entity, p)) \<notin> set (rel_keys (gr st))"
  shows "((REPORTS_TO, (Entity, ent_entity_id r), (Entity, p))
            \<in> set (rel_keys (gr (create_entity_hierarchy t rows st)))
          \<longleftrightarrow> (Entity, ent_entity_id r) \<in> set (node_keys (gr st))
              \<and> (Entity, p) \<in> set (node_keys (gr st)))
       \<and> ((REPORTS_TO, (Entity, ent_entity_id r), (Entity, p))
            \<in> set (rel_keys (gr (import_entities now rows st)))
          \<longleftrightarrow> (Entity, p) \<in> set (node_keys (gr (import_entities now rows st))))
       \<and> ((Entity, p) \<notin> set (node_keys (gr (import_entities now rows st))) \<longrightarrow>
            (REPORTS_TO, (Entity, ent_entity_id r), (Entity, p))
              \<notin> set (rel_keys (gr (import_entities now rows st)))
          \<and> 0 < length (invalid_parents rows)
          \<and> (WARNING, ''Found {n} entities with invalid parent_org'',
               Some (length (invalid_parents rows)))
              \<in> set (logs (validate_relationships rows people partners st')))
       \<and> warnings (import_entities now rows st) = warnings st"
proof -
  have a: "(REPORTS_TO, (Entity, ent_entity_id r), (Entity, p))
            \<in> set (rel_keys (gr (create_entity_hierarchy t rows st)))
          \<longleftrightarrow> (Entity, ent_entity_id r) \<in> set (node_keys (gr st))
              \<and> (Entity, p) \<in> set (node_keys (gr st))"
    using assms by (auto simp: rel_keys_create_entity_hierarchy)
  have b: "(REPORTS_TO, (Entity, ent_entity_id r), (Entity, p))
            \<in> set (rel_keys (gr (import_entities now rows st)))
          \<longleftrightarrow> (Entity, p) \<in> set (node_keys (gr (import_entities now rows st)))"
    using assms by (auto simp: reports_to_after_import)
  have c: "0 < length (invalid_parents rows)
          \<and> (WARNING, ''Found {n} entities with invalid parent_org'',
               Some (length (invalid_parents rows)))
              \<in> set (logs (validate_relationships rows people partners st'))"
    if "(Entity, p) \<notin> set (node_keys (gr (import_entities now rows st)))"
  proof -
    from that have "(Entity, p) \<notin> set (entity_keys rows)"
      by (simp add: entity_in_keys_after_import)
    then have "p \<notin> set (map ent_entity_id rows)"
      by (auto simp: entity_keys_def)
    with assms(1,2) show ?thesis
      by (rule invalid_parent_warned)
  qed
  have d: "warnings (import_entities now rows st) = warnings st"
    by (rule warnings_import_entities)
  from a b c d show ?thesis by blast
qed


theorem reports_to_iff_both_exist_witness:
  "orphan_entity \<in> set [orphan_entity] \<and> ent_parent_org orphan_entity = Some ''MIN999''
   \<and> (REPORTS_TO, (Entity, ent_entity_id orphan_entity), (Entity, ''MIN999''))
        \<notin> set (rel_keys (gr state0))
   \<and> (REPORTS_TO, (Entity, ''AGN002''), (Entity, ''MIN999''))
        \<notin> set (rel_keys (gr (import_entities id [orphan_entity] state0)))
   \<and> (WARNING, ''Found {n} entities with invalid parent_org'', Some 1)
        \<in> set (logs (validate_relationships [orphan_entity] [] [] state0))
   \<and> warnings (import_entities id [orphan_entity] state0) = []"
proof -
  have w0: "warnings state0 = []"
    by (simp add: warnings_def state0_def)
  have h1: "orphan_entity \<in> set [orphan_entity]" by simp
  have h2: "ent_parent_org orphan_entity = Some ''MIN999''"
    by (simp add: orphan_entity_def)
  have h3: "(REPORTS_TO, (Entity, ent_entity_id orphan_entity), (Entity, ''MIN999''))
        \<notin> set (rel_keys (gr state0))"
    by (simp add: state0_def empty_graph_def rel_keys_def)
  have n: "(Entity, ''MIN999'') \<notin> set (node_keys (gr (import_entities id [orphan_entity] state0)))"
    unfolding entity_in_keys_after_import
    by (simp add: entity_keys_def orphan_entity_def state0_def empty_graph_def node_keys_def)
  have i: "ent_entity_id orphan_entity = ''AGN002''"
    by (simp add: orphan_entity_def)
  have l: "length (invalid_parents [orphan_entity]) = 1"
    by (simp add: invalid_parents_def orphan_entity_def)
  show ?thesis
    using h1 h2 h3 n
      reports_to_iff_both_exist[OF h1 h2 h3, of _ id "[]" "[]" state0]
    unfolding i l w0 by simp
qed


section \<open>C5: a person whose entity does not exist\<close>

lemma logs_import_people:
  "logs (import_people now rows st)
     = logs st @ [(INFO, ''Importing {n} people...'', Some (length rows)),
                  (INFO, ''Created/updated {count} person nodes'', Some (length rows)),
                  (INFO, ''Created {count} WORKS_FOR relationships'',
                   Some (rel_count Person Entity works_for_ends rows
                           (people_query (now 0) rows (gr st))))]"
  by (simp add: import_people_def Let_def logs_log_msg gr_log_msg)

lemma warnings_import_people: "warnings (import_people now rows st) = warnings st"
  by (simp add: warnings_def logs_import_people)

lemma node_keys_people_query:
  "set (node_keys (people_query t rows g))
     = (\<lambda>r. (Person, per_person_id r)) ` set rows \<union> set (node_keys g)"
  by (simp add: people_query_def node_keys_fold_merge_node set_fold_add_key)

lemma works_for_count:
  "rel_count Person Entity works_for_ends rows (people_query t rows g)
     = length (filter (\<lambda>q. has_node g Entity (per_entity_id q)) rows)"
proof -
  have "matched (people_query t rows g) Person (fst (works_for_ends q)) Entity (snd (works_for_ends q))
          \<longleftrightarrow> has_node g Entity (per_entity_id q)" if "q \<in> set rows" for q
    using that
    by (auto simp: matched_def has_node_def works_for_ends_def node_keys_people_query
          split: option.splits)
  then show ?thesis
    unfolding rel_count_def by (metis (mono_tags, lifting) filter_cong)
qed

lemma set_rel_keys_import_people:
  "set (rel_keys (gr (import_people now rows st)))
     = set (rel_keys (gr st))
       \<union> {(WORKS_FOR, (Person, per_person_id q), (Entity, e)) | q e.
            q \<in> set rows \<and> per_entity_id q = Some e \<and> (Entity, e) \<in> set (node_keys (gr st))}"
proof -
  have "set (edge_list WORKS_FOR Person Entity
               (set (node_keys (gr (import_people now rows st)))) (map works_for_ends rows))
      = {(WORKS_FOR, (Person, per_person_id q), (Entity, e)) | q e.
            q \<in> set rows \<and> per_entity_id q = Some e \<and> (Entity, e) \<in> set (node_keys (gr st))}"
    unfolding set_edge_list node_keys_import_people set_fold_add_key
    by (auto simp: works_for_ends_def image_iff; metis)
  then show ?thesis
    unfolding rel_keys_import_people[of now rows st] set_fold_add_key by blast
qed

lemma invalid_person_warned:
  assumes "r \<in> set rows" and "\<not> isin (per_entity_id r) (map ent_entity_id entities)"
  shows "0 < length (invalid_people entities rows)
       \<and> (WARNING, ''Found {n} people with invalid entity_id'',
            Some (length (invalid_people entities rows)))
           \<in> set (logs (validate_relationships entities rows partners st))"
proof -
  have "r \<in> set (invalid_people entities rows)"
    using assms by (simp add: invalid_people_def)
  then have pos: "0 < length (invalid_people entities rows)"
    by (cases "invalid_people entities rows") auto
  then show ?thesis
    by (simp add: validate_relationships_def warn_if_any_def logs_log_msg)
qed


text \<open>
  Claim C5 as stated fails: \<^verbatim>\<open>import_people\<close> neither warns about nor counts the rows it
  cannot link. Importing the two sample people into an empty store (no entity exists)
  creates both Person nodes and no relationship, logs no warning, and its three log
  records are the batch size, the number of person nodes and the number 0 of
  relationships created.
\<close>

theorem import_people_logs_no_skip:
  "warnings (import_people id sample_people state0) = []
   \<and> logs (import_people id sample_people state0)
       = [(INFO, ''Importing {n} people...'', Some 2),
          (INFO, ''Created/updated {count} person nodes'', Some 2),
          (INFO, ''Created {count} WORKS_FOR relationships'', Some 0)]
   \<and> (Person, ''P001'') \<in> set (node_keys (gr (import_people id sample_people state0)))
   \<and> set (rel_keys (gr (import_people id sample_people state0))) = {}"
proof -
  have c: "rel_count Person Entity works_for_ends sample_people
             (people_query 0 sample_people (gr state0)) = 0"
    unfolding works_for_count
    by (simp add: sample_people_def has_node_def state0_def empty_graph_def node_keys_def)
  have l: "length sample_people = 2"
    by (simp add: sample_people_def)
  have w: "warnings state0 = []" and l0: "logs state0 = []"
    by (simp_all add: warnings_def state0_def)
  have n: "(Person, ''P001'') \<in> set (node_keys (gr (import_people id sample_people state0)))"
    unfolding node_keys_import_people set_fold_add_key
    by (simp add: sample_people_def)
  have r: "set (rel_keys (gr (import_people id sample_people state0))) = {}"
    unfolding set_rel_keys_import_people
    by (simp add: state0_def empty_graph_def node_keys_def rel_keys_def)
  show ?thesis
    using n r by (simp add: warnings_import_people w logs_import_people l0 l c)
qed

text \<open>
  Claim C5, amended. Let \<open>r\<close> be a row of the people batch whose \<open>entity_id\<close> \<open>e\<close> is not
  an Entity node of the store (and let the store hold no \<^verbatim>\<open>WORKS_FOR\<close> relationship from
  \<open>r\<close>'s person to \<open>e\<close>). Then after \<^verbatim>\<open>import_people\<close> there is no such relationship,
  the Person node is merged all the same, no warning has been logged by the import, and
  its last log record carries the number of rows whose entity exists, which is smaller
  than the number of rows. The warning that counts unlinked people is logged by
  \<^verbatim>\<open>_validate_relationships\<close> when \<open>e\<close> is not an id of the entity batch it is given.
\<close>

theorem works_for_skipped_silently:
  assumes "r \<in> set rows" and "per_entity_id r = Some e"
    and "(Entity, e) \<notin> set (node_keys (gr st))"
    and "(WORKS_FOR, (Person, per_person_id r), (Entity, e)) \<notin> set (rel_keys (gr st))"
  shows "(WORKS_FOR, (Person, per_person_id r), (Entity, e))
           \<notin> set (rel_keys (gr (import_people now rows st)))
       \<and> (Person, per_person_id r) \<in> set (node_keys (gr (import_people now rows st)))
       \<and> warnings (import_people now rows st) = warnings st
       \<and> last (logs (import_people now rows st))
           = (INFO, ''Created {count} WORKS_FOR relationships'',
              Some (length (filter (\<lambda>q. has_node (gr st) Entity (per_entity_id q)) rows)))
       \<and> length (filter (\<lambda>q. has_node (gr st) Entity (per_entity_id q)) rows) < length rows
       \<and> (e \<notin> set (map ent_entity_id entities) \<longrightarrow>
            0 < length (invalid_people entities rows)
          \<and> (WARNING, ''Found {n} people with invalid entity_id'',
               Some (length (invalid_people entities rows)))
              \<in> set (logs (validate_relationships entities rows partners st')))"
proof -
  have a: "(WORKS_FOR, (Person, per_person_id r), (Entity, e))
           \<notin> set (rel_keys (gr (import_people now rows st)))"
    using assms(3,4) by (auto simp: set_rel_keys_import_people)
  have b: "(Person, per_person_id r) \<in> set (node_keys (gr (import_people now rows st)))"
    using assms(1) by (auto simp: node_keys_import_people set_fold_add_key)
  have c: "last (logs (import_people now rows st))
           = (INFO, ''Created {count} WORKS_FOR relationships'',
              Some (length (filter (\<lambda>q. has_node (gr st) Entity (per_entity_id q)) rows)))"
    by (simp add: logs_import_people works_for_count)
  have "\<not> has_node (gr st) Entity (per_entity_id r)"
    using assms(2,3) by (simp add: has_node_def)
  with assms(1) have d: "length (filter (\<lambda>q. has_node (gr st) Entity (per_entity_id q)) rows) < length rows"
    by (meson length_filter_less)
  have f: "0 < length (invalid_people entities rows)
          \<and> (WARNING, ''Found {n} people with invalid entity_id'',
               Some (length (invalid_people entities rows)))
              \<in> set (logs (validate_relationships entities rows partners st'))"
    if "e \<notin> set (map ent_entity_id entities)"
  proof -
    from that assms(2) have "\<not> isin (per_entity_id r) (map ent_entity_id entities)"
      by simp
    with assms(1) show ?thesis
      by (rule invalid_person_warned)
  qed
  from a b c d f warnings_import_people[of now rows st] show ?thesis
    by blast
qed

theorem works_for_skipped_silently_witness:
  "hd sample_people \<in> set sample_people \<and> per_entity_id (hd sample_people) = Some ''MIN001''
   \<and> (Entity, ''MIN001'') \<notin> set (node_keys (gr state0))
   \<and> (WORKS_FOR, (Person, per_person_id (hd sample_people)), (Entity, ''MIN001''))
        \<notin> set (rel_keys (gr state0))
   \<and> (WORKS_FOR, (Person, per_person_id (hd sample_people)), (Entity, ''MIN001''))
        \<notin> set (rel_keys (gr (import_people id sample_people state0)))
   \<and> (Person, per_person_id (hd sample_people))
        \<in> set (node_keys (gr (import_people id sample_people state0)))
   \<and> warnings (import_people id sample_people state0) = warnings state0"
proof -
  have h1: "hd sample_people \<in> set sample_people"
    by (simp add: sample_people_def)
  have h2: "per_entity_id (hd sample_people) = Some ''MIN001''"
    by (simp add: sample_people_def)
  have h3: "(Entity, ''MIN001'') \<notin> set (node_keys (gr state0))"
    by (simp add: state0_def empty_graph_def node_keys_def)
  have h4: "(WORKS_FOR, (Person, per_person_id (hd sample_people)), (Entity, ''MIN001''))
        \<notin> set (rel_keys (gr state0))"
    by (simp add: state0_def empty_graph_def rel_keys_def)
  show ?thesis
    using h1 h2 h3 h4 works_for_skipped_silently[OF h1 h2 h3 h4, of id]
    by blast
qed

section \<open>C7: policy tokens, Policy nodes and \<^verbatim>\<open>ALIGNED_TO\<close> relationships\<close>


lemma sp: "\<not> isspace CHR ''M''" "\<not> isspace CHR ''L''" "\<not> isspace CHR ''A''" "\<not> isspace CHR ''p''"
  by (simp_all add: isspace_def)
lemma dropWhile_id: "xs \<noteq> [] \<Longrightarrow> \<not> P (hd xs) \<Longrightarrow> dropWhile P xs = xs"
  by (cases xs) simp_all
lemma strip_id: "s \<noteq> [] \<Longrightarrow> \<not> isspace (hd s) \<Longrightarrow> \<not> isspace (last s) \<Longrightarrow> strip s = s"
  by (simp add: strip_def dropWhile_id hd_rev)
lemma split_example: "split_on CHR ''|'' ''MyDIGITAL|AI Roadmap'' = [''MyDIGITAL'', ''AI Roadmap'']"
  by simp
lemma tokens_example: "policy_tokens ''MyDIGITAL|AI Roadmap'' = [''MyDIGITAL'', ''AI Roadmap'']"
  unfolding policy_tokens_def split_example by (simp add: strip_id sp)

lemma policy_in_keys_after_import:
  "(Policy, n) \<in> set (node_keys (gr (import_entities now rows st)))
     \<longleftrightarrow> (Policy, n) \<in> set (node_keys (gr st)) \<or> (\<exists>r \<in> set rows. n \<in> set (row_policies r))"
  by (auto simp: node_keys_import_entities set_fold_add_key policy_keys_def entity_keys_def
        set_all_policies)

lemma aligned_to_after_import:
  "(ALIGNED_TO, a, b) \<in> set (rel_keys (gr (import_entities now rows st)))
     \<longleftrightarrow> (ALIGNED_TO, a, b) \<in> set (rel_keys (gr st))
         \<or> (\<exists>r \<in> set rows. \<exists>n \<in> set (row_policies r).
               a = (Entity, ent_entity_id r) \<and> b = (Policy, n))"
proof -
  let ?N2 = "set (fold add_key (policy_keys rows) (fold add_key (entity_keys rows) (node_keys (gr st))))"
  have e: "(Entity, ent_entity_id r) \<in> ?N2" if "r \<in> set rows" for r
    using that by (auto simp: set_fold_add_key entity_keys_def)
  have p: "(Policy, n) \<in> ?N2" if "r \<in> set rows" and "n \<in> set (row_policies r)" for r n
    using that by (auto simp: set_fold_add_key policy_keys_def set_all_policies)
  have "set (edge_list ALIGNED_TO Entity Policy ?N2 (alignments rows))
      = {(ALIGNED_TO, (Entity, ent_entity_id r), (Policy, n)) | r n.
           r \<in> set rows \<and> n \<in> set (row_policies r)}"
    unfolding set_edge_list set_alignments using e p by blast
  then show ?thesis
    unfolding rel_keys_import_entities set_fold_add_key set_edge_list[of REPORTS_TO]
    by auto
qed


lemma count_list_distinct: "distinct xs \<Longrightarrow> x \<in> set xs \<Longrightarrow> count_list xs x = 1"
  by (induction xs) (auto simp: count_list_0_iff)

lemma row_policies_example:
  "ent_policy_alignment q = Some ''MyDIGITAL|AI Roadmap'' \<Longrightarrow> row_policies q = [''MyDIGITAL'', ''AI Roadmap'']"
  by (simp add: row_policies_def tokens_example)

lemma aligned_edges_of_row:
  assumes "r \<in> set rows"
    and "ent_policy_alignment r = Some ''MyDIGITAL|AI Roadmap''"
    and same: "\<forall>q \<in> set rows. ent_entity_id q = ent_entity_id r
                 \<longrightarrow> ent_policy_alignment q = ent_policy_alignment r"
    and fresh: "\<forall>b. (ALIGNED_TO, (Entity, ent_entity_id r), b) \<notin> set (rel_keys (gr st))"
  shows "{k \<in> set (rel_keys (gr (import_entities now rows st))).
            fst k = ALIGNED_TO \<and> fst (snd k) = (Entity, ent_entity_id r)}
       = {(ALIGNED_TO, (Entity, ent_entity_id r), (Policy, ''MyDIGITAL'')),
          (ALIGNED_TO, (Entity, ent_entity_id r), (Policy, ''AI Roadmap''))}"
    (is "?L = ?R")
proof
  show "?L \<subseteq> ?R"
  proof
    fix k assume "k \<in> ?L"
    then obtain b where k: "k = (ALIGNED_TO, (Entity, ent_entity_id r), b)"
      and kin: "k \<in> set (rel_keys (gr (import_entities now rows st)))"
      by (cases k) auto
    from kin fresh obtain q n where q: "q \<in> set rows" "n \<in> set (row_policies q)"
      "ent_entity_id q = ent_entity_id r" "b = (Policy, n)"
      unfolding k aligned_to_after_import by auto
    from same q(1,3) assms(2) have "row_policies q = [''MyDIGITAL'', ''AI Roadmap'']"
      by (simp add: row_policies_example)
    with q(2,4) show "k \<in> ?R"
      unfolding k by auto
  qed
next
  have rp: "row_policies r = [''MyDIGITAL'', ''AI Roadmap'']"
    using assms(2) by (rule row_policies_example)
  have "(ALIGNED_TO, (Entity, ent_entity_id r), (Policy, n))
          \<in> set (rel_keys (gr (import_entities now rows st)))" if "n \<in> set (row_policies r)" for n
    unfolding aligned_to_after_import using that assms(1) by blast
  then show "?R \<subseteq> ?L"
    by (simp add: rp)
qed

text \<open>
  Claim C7. The cell \<^verbatim>\<open>"MyDIGITAL|AI Roadmap"\<close> has the two tokens \<open>MyDIGITAL\<close> and
  \<open>AI Roadmap\<close>. In general, after \<^verbatim>\<open>import_entities\<close>: for every row of the batch and
  every token of its \<open>policy_alignment\<close> (the pieces between \<open>|\<close>, stripped) there is a
  Policy node named by the token and an \<^verbatim>\<open>ALIGNED_TO\<close> relationship from the row's entity
  to it, exactly one if the store had no duplicate relationships; every
  \<^verbatim>\<open>ALIGNED_TO\<close> relationship and every Policy node of the result was either in the store
  before or comes from a token of a row of the batch. In particular, for a row \<open>r\<close> with
  the cell above, when the rows of the batch with \<open>r\<close>'s id carry the same cell and the
  store held no \<^verbatim>\<open>ALIGNED_TO\<close> relationship from \<open>r\<close>'s entity, the relationships of that
  type from the entity are exactly two, to the Policy nodes \<open>MyDIGITAL\<close> and
  \<open>AI Roadmap\<close>, both present.
\<close>

theorem policy_tokenization:
  "policy_tokens ''MyDIGITAL|AI Roadmap'' = [''MyDIGITAL'', ''AI Roadmap'']
   \<and> (\<forall>q \<in> set rows. \<forall>n \<in> set (row_policies q).
         (Policy, n) \<in> set (node_keys (gr (import_entities now rows st)))
       \<and> (ALIGNED_TO, (Entity, ent_entity_id q), (Policy, n))
           \<in> set (rel_keys (gr (import_entities now rows st)))
       \<and> (distinct (rel_keys (gr st)) \<longrightarrow>
            count_list (rel_keys (gr (import_entities now rows st)))
              (ALIGNED_TO, (Entity, ent_entity_id q), (Policy, n)) = 1))
   \<and> (\<forall>a b. (ALIGNED_TO, a, b) \<in> set (rel_keys (gr (import_entities now rows st))) \<longrightarrow>
         (ALIGNED_TO, a, b) \<in> set (rel_keys (gr st))
       \<or> (\<exists>q \<in> set rows. \<exists>n \<in> set (row_policies q).
             a = (Entity, ent_entity_id q) \<and> b = (Policy, n)))
   \<and> (\<forall>n. (Policy, n) \<in> set (node_keys (gr (import_entities now rows st))) \<longrightarrow>
         (Policy, n) \<in> set (node_keys (gr st)) \<or> (\<exists>q \<in> set rows. n \<in> set (row_policies q)))
   \<and> (r \<in> set rows \<and> ent_policy_alignment r = Some ''MyDIGITAL|AI Roadmap''
       \<and> (\<forall>q \<in> set rows. ent_entity_id q = ent_entity_id r
             \<longrightarrow> ent_policy_alignment q = ent_policy_alignment r)
       \<and> (\<forall>b. (ALIGNED_TO, (Entity, ent_entity_id r), b) \<notin> set (rel_keys (gr st)))
       \<and> distinct (rel_keys (gr st))
       \<longrightarrow> {k \<in> set (rel_keys (gr (import_entities now rows st))).
              fst k = ALIGNED_TO \<and> fst (snd k) = (Entity, ent_entity_id r)}
            = {(ALIGNED_TO, (Entity, ent_entity_id r), (Policy, ''MyDIGITAL'')),
               (ALIGNED_TO, (Entity, ent_entity_id r), (Policy, ''AI Roadmap''))}
         \<and> length (filter (\<lambda>k. fst k = ALIGNED_TO \<and> fst (snd k) = (Entity, ent_entity_id r))
                      (rel_keys (gr (import_entities now rows st)))) = 2
         \<and> (Policy, ''MyDIGITAL'') \<in> set (node_keys (gr (import_entities now rows st)))
         \<and> (Policy, ''AI Roadmap'') \<in> set (node_keys (gr (import_entities now rows st))))"
proof -
  let ?g = "gr (import_entities now rows st)"
  have gen: "(Policy, n) \<in> set (node_keys ?g)
       \<and> (ALIGNED_TO, (Entity, ent_entity_id q), (Policy, n)) \<in> set (rel_keys ?g)
       \<and> (distinct (rel_keys (gr st)) \<longrightarrow>
            count_list (rel_keys ?g) (ALIGNED_TO, (Entity, ent_entity_id q), (Policy, n)) = 1)"
    if "q \<in> set rows" and "n \<in> set (row_policies q)" for q n
  proof -
    have 1: "(Policy, n) \<in> set (node_keys ?g)"
      unfolding policy_in_keys_after_import using that by blast
    have 2: "(ALIGNED_TO, (Entity, ent_entity_id q), (Policy, n)) \<in> set (rel_keys ?g)"
      unfolding aligned_to_after_import using that by blast
    have 3: "count_list (rel_keys ?g) (ALIGNED_TO, (Entity, ent_entity_id q), (Policy, n)) = 1"
      if "distinct (rel_keys (gr st))"
      using distinct_rel_keys_import_entities[OF that] 2 by (rule count_list_distinct)
    from 1 2 3 show ?thesis by blast
  qed
  have only_e: "(ALIGNED_TO, a, b) \<in> set (rel_keys (gr st))
       \<or> (\<exists>q \<in> set rows. \<exists>n \<in> set (row_policies q).
             a = (Entity, ent_entity_id q) \<and> b = (Policy, n))"
    if "(ALIGNED_TO, a, b) \<in> set (rel_keys ?g)" for a b
    using that unfolding aligned_to_after_import .
  have only_p: "(Policy, n) \<in> set (node_keys (gr st)) \<or> (\<exists>q \<in> set rows. n \<in> set (row_policies q))"
    if "(Policy, n) \<in> set (node_keys ?g)" for n
    using that unfolding policy_in_keys_after_import .
  have spec: "{k \<in> set (rel_keys ?g). fst k = ALIGNED_TO \<and> fst (snd k) = (Entity, ent_entity_id r)}
            = {(ALIGNED_TO, (Entity, ent_entity_id r), (Policy, ''MyDIGITAL'')),
               (ALIGNED_TO, (Entity, ent_entity_id r), (Policy, ''AI Roadmap''))}
         \<and> length (filter (\<lambda>k. fst k = ALIGNED_TO \<and> fst (snd k) = (Entity, ent_entity_id r))
                      (rel_keys ?g)) = 2
         \<and> (Policy, ''MyDIGITAL'') \<in> set (node_keys ?g)
         \<and> (Policy, ''AI Roadmap'') \<in> set (node_keys ?g)"
    if h: "r \<in> set rows" "ent_policy_alignment r = Some ''MyDIGITAL|AI Roadmap''"
      "\<forall>q \<in> set rows. ent_entity_id q = ent_entity_id r
             \<longrightarrow> ent_policy_alignment q = ent_policy_alignment r"
      "\<forall>b. (ALIGNED_TO, (Entity, ent_entity_id r), b) \<notin> set (rel_keys (gr st))"
      "distinct (rel_keys (gr st))"
  proof -
    let ?P = "\<lambda>k. fst k = ALIGNED_TO \<and> fst (snd k) = (Entity, ent_entity_id r)"
    have s: "{k \<in> set (rel_keys ?g). ?P k}
            = {(ALIGNED_TO, (Entity, ent_entity_id r), (Policy, ''MyDIGITAL'')),
               (ALIGNED_TO, (Entity, ent_entity_id r), (Policy, ''AI Roadmap''))}"
      using h(1-4) by (rule aligned_edges_of_row)
    have d: "distinct (rel_keys ?g)"
      using h(5) by (rule distinct_rel_keys_import_entities)
    have "length (filter ?P (rel_keys ?g)) = card {k \<in> set (rel_keys ?g). ?P k}"
      using d by (simp add: distinct_length_filter Int_def conj_commute)
    also have "\<dots> = 2"
      unfolding s by simp
    finally have l: "length (filter ?P (rel_keys ?g)) = 2" .
    have rp: "row_policies r = [''MyDIGITAL'', ''AI Roadmap'']"
      using h(2) by (rule row_policies_example)
    have "(Policy, ''MyDIGITAL'') \<in> set (node_keys ?g)" "(Policy, ''AI Roadmap'') \<in> set (node_keys ?g)"
      using gen[OF h(1), of "''MyDIGITAL''"] gen[OF h(1), of "''AI Roadmap''"] by (simp_all add: rp)
    with s l show ?thesis by blast
  qed
  from tokens_example gen only_e only_p spec show ?thesis
    by blast
qed


theorem policy_tokenization_witness:
  "hd sample_entities \<in> set sample_entities
   \<and> ent_policy_alignment (hd sample_entities) = Some ''MyDIGITAL|AI Roadmap''
   \<and> ent_entity_id (hd sample_entities) = ''MIN001''
   \<and> distinct (rel_keys (gr state0))
   \<and> {k \<in> set (rel_keys (gr (import_entities id sample_entities state0))).
         fst k = ALIGNED_TO \<and> fst (snd k) = (Entity, ''MIN001'')}
       = {(ALIGNED_TO, (Entity, ''MIN001''), (Policy, ''MyDIGITAL'')),
          (ALIGNED_TO, (Entity, ''MIN001''), (Policy, ''AI Roadmap''))}
   \<and> length (filter (\<lambda>k. fst k = ALIGNED_TO \<and> fst (snd k) = (Entity, ''MIN001''))
                (rel_keys (gr (import_entities id sample_entities state0)))) = 2
   \<and> (Policy, ''MyDIGITAL'') \<in> set (node_keys (gr (import_entities id sample_entities state0)))
   \<and> (Policy, ''AI Roadmap'') \<in> set (node_keys (gr (import_entities id sample_entities state0)))"
proof -
  have h1: "hd sample_entities \<in> set sample_entities"
    by (simp add: sample_entities_def)
  have h2: "ent_policy_alignment (hd sample_entities) = Some ''MyDIGITAL|AI Roadmap''"
    by (simp add: sample_entities_def)
  have i: "ent_entity_id (hd sample_entities) = ''MIN001''"
    by (simp add: sample_entities_def)
  have h3: "\<forall>q \<in> set sample_entities. ent_entity_id q = ent_entity_id (hd sample_entities)
             \<longrightarrow> ent_policy_alignment q = ent_policy_alignment (hd sample_entities)"
    by (simp add: sample_entities_def)
  have h4: "\<forall>b. (ALIGNED_TO, (Entity, ent_entity_id (hd sample_entities)), b)
              \<notin> set (rel_keys (gr state0))"
    by (simp add: state0_def empty_graph_def rel_keys_def)
  have h5: "distinct (rel_keys (gr state0))"
    by (simp add: state0_def empty_graph_def rel_keys_def)
  have "{k \<in> set (rel_keys (gr (import_entities id sample_entities state0))).
              fst k = ALIGNED_TO \<and> fst (snd k) = (Entity, ent_entity_id (hd sample_entities))}
            = {(ALIGNED_TO, (Entity, ent_entity_id (hd sample_entities)), (Policy, ''MyDIGITAL'')),
               (ALIGNED_TO, (Entity, ent_entity_id (hd sample_entities)), (Policy, ''AI Roadmap''))}
         \<and> length (filter (\<lambda>k. fst k = ALIGNED_TO
                               \<and> fst (snd k) = (Entity, ent_entity_id (hd sample_entities)))
                      (rel_keys (gr (import_entities id sample_entities state0)))) = 2
         \<and> (Policy, ''MyDIGITAL'') \<in> set (node_keys (gr (import_entities id sample_entities state0)))
         \<and> (Policy, ''AI Roadmap'') \<in> set (node_keys (gr (import_entities id sample_entities state0)))"
    using h1 h2 h3 h4 h5
      policy_tokenization[where rows = sample_entities and now = id and st = state0
        and r = "hd sample_entities"]
    by blast
  then show ?thesis
    using h1 h2 i h5 unfolding i by blast
qed

section \<open>C3: the ancestors returned by the hierarchy query\<close>


lemma var_expand_leaf:
  assumes "filter (\<lambda>e. fst e = n) es = []"
  shows "var_expand es used n = [n]"
proof -
  have "\<forall>i < length es. fst (es ! i) \<noteq> n"
    using assms by (auto simp: filter_empty_conv)
  then have "filter (\<lambda>i. i \<notin> set used \<and> fst (es ! i) = n) [0..<length es] = []"
    by (auto simp: filter_empty_conv)
  then show ?thesis
    by (subst var_expand.simps) simp
qed

lemma filter_singleton_index:
  "filter P es = [x] \<Longrightarrow>
     \<exists>i < length es. es ! i = x \<and> filter (\<lambda>i. P (es ! i)) [0..<length es] = [i]"
proof (induction es rule: rev_induct)
  case Nil
  then show ?case by simp
next
  case (snoc y ys)
  have idx: "filter (\<lambda>i. P ((ys @ [y]) ! i)) [0..<length ys] = filter (\<lambda>i. P (ys ! i)) [0..<length ys]"
    by (rule filter_cong) (simp_all add: nth_append)
  show ?case
  proof (cases "P y")
    case True
    with snoc.prems have e: "filter P ys = []" and xy: "x = y"
      by (auto simp: append_eq_Cons_conv)
    from e have "\<forall>i < length ys. \<not> P (ys ! i)"
      by (auto simp: filter_empty_conv)
    then have "filter (\<lambda>i. P (ys ! i)) [0..<length ys] = []"
      by (auto simp: filter_empty_conv)
    with True xy idx show ?thesis
      by (intro exI[of _ "length ys"]) simp
  next
    case False
    with snoc.prems have "filter P ys = [x]" by simp
    from snoc.IH[OF this] obtain i where i: "i < length ys" "ys ! i = x"
      "filter (\<lambda>i. P (ys ! i)) [0..<length ys] = [i]" by blast
    with False idx show ?thesis
      by (intro exI[of _ i]) (simp add: nth_append)
  qed
qed

lemma var_expand_single:
  assumes "map snd (filter (\<lambda>e. fst e = n) es) = [m]"
    and "\<forall>j \<in> set used. fst (es ! j) \<noteq> n"
  shows "\<exists>i < length es. es ! i = (n, m) \<and> var_expand es used n = n # var_expand es (i # used) m"
proof -
  from assms(1) obtain x where fx: "filter (\<lambda>e. fst e = n) es = [x]" and "snd x = m"
    by auto
  moreover from fx have "x \<in> set (filter (\<lambda>e. fst e = n) es)" by simp
  then have "fst x = n" by simp
  ultimately have x: "x = (n, m)" by (cases x) simp
  from filter_singleton_index[OF fx] obtain i where i: "i < length es" "es ! i = x"
    "filter (\<lambda>i. fst (es ! i) = n) [0..<length es] = [i]" by blast
  have "i \<notin> set used"
    using assms(2) i(2) x by auto
  have "filter (\<lambda>i. i \<notin> set used \<and> fst (es ! i) = n) [0..<length es]
      = filter (\<lambda>i. i \<notin> set used) (filter (\<lambda>i. fst (es ! i) = n) [0..<length es])"
    by (simp add: conj_commute)
  also have "\<dots> = [i]"
    using \<open>i \<notin> set used\<close> by (simp add: i(3))
  finally have c: "filter (\<lambda>i. i \<notin> set used \<and> fst (es ! i) = n) [0..<length es] = [i]" .
  have "var_expand es used n = n # var_expand es (i # used) m"
    by (subst var_expand.simps) (simp add: c i(2) x)
  with i(1,2) x show ?thesis by blast
qed

lemma var_expand_chain:
  assumes cb: "map snd (filter (\<lambda>e. fst e = c) es) = [b]"
    and ba: "map snd (filter (\<lambda>e. fst e = b) es) = [a]"
    and top: "filter (\<lambda>e. fst e = a) es = []"
  shows "var_expand es [] c = [c, b, a]"
proof -
  have "b \<noteq> a"
    using ba top by auto
  have "c \<noteq> b"
  proof
    assume "c = b"
    with cb ba have "a = b" by simp
    with \<open>b \<noteq> a\<close> show False by simp
  qed
  from var_expand_single[OF cb, of "[]"] obtain i where
    i: "es ! i = (c, b)" "var_expand es [] c = c # var_expand es [i] b" by auto
  have "\<forall>j \<in> set [i]. fst (es ! j) \<noteq> b"
    using i(1) \<open>c \<noteq> b\<close> by simp
  from var_expand_single[OF ba this] obtain j where
    j: "var_expand es [i] b = b # var_expand es [j, i] a" by auto
  show ?thesis
    by (simp add: i(2) j var_expand_leaf[OF top])
qed


lemma chain_pairs:
  "reports_to_pairs (gr chain_state)
     = [((Entity, ''B''), (Entity, ''A'')), ((Entity, ''C''), (Entity, ''B''))]"
  unfolding chain_state_def reports_to_pairs_def rel_keys_import_entities
  by (simp add: chain_rows_def chain_row_def entity_keys_def policy_keys_def all_policies_def
        row_policies_def hierarchy_relationships_def alignments_def edge_list_def add_key_def
        state0_def empty_graph_def node_keys_def rel_keys_def)

lemma chain_nodes: "node_keys (gr chain_state) = [(Entity, ''A''), (Entity, ''B''), (Entity, ''C'')]"
  unfolding chain_state_def node_keys_import_entities
  by (simp add: chain_rows_def chain_row_def entity_keys_def policy_keys_def all_policies_def
        row_policies_def add_key_def state0_def empty_graph_def node_keys_def)

lemma chain_ids:
  "node_prop (gr chain_state) (Entity, ''A'') ''entity_id'' = Some (VStr ''A'')"
  "node_prop (gr chain_state) (Entity, ''B'') ''entity_id'' = Some (VStr ''B'')"
  "node_prop (gr chain_state) (Entity, ''C'') ''entity_id'' = Some (VStr ''C'')"
  unfolding chain_state_def node_prop_def node_props_def nodes_import_entities
  by (simp_all add: chain_rows_def chain_row_def all_policies_def row_policies_def
        create_policy_query_def query_simple_def merge_node_def node_keys_def entity_set_def
        stamp_def state0_def empty_graph_def)


lemma filter_fst_swap:
  "filter (\<lambda>e. fst e = n) (map swap_pair ps) = map swap_pair (filter (\<lambda>e. snd e = n) ps)"
  by (induction ps) (simp_all add: swap_pair_def)

text \<open>
  Claim C3, amended. Let \<open>c\<close> be an Entity node whose only \<^verbatim>\<open>REPORTS_TO\<close> relationship
  leads to \<open>b\<close>, let the only one from \<open>b\<close> lead to \<open>a\<close>, let none leave \<open>a\<close> and none
  arrive at \<open>c\<close>. Then the query binds \<open>parent\<close> to \<open>c\<close>, \<open>b\<close>, \<open>a\<close> in this order: the
  \<open>parents\<close> list of the result starts with the entity itself (the path of length 0 of
  \<^verbatim>\<open>*0..\<close>), followed by the ancestors \<open>b\<close> and \<open>a\<close>; the \<open>children\<close> list is the entity
  itself alone.
\<close>

theorem hierarchy_parents_start_with_entity:
  assumes "(Entity, c) \<in> set (node_keys g)"
    and "map snd (filter (\<lambda>e. fst e = (Entity, c)) (reports_to_pairs g)) = [b]"
    and "map snd (filter (\<lambda>e. fst e = b) (reports_to_pairs g)) = [a]"
    and "filter (\<lambda>e. fst e = a) (reports_to_pairs g) = []"
    and "filter (\<lambda>e. snd e = (Entity, c)) (reports_to_pairs g) = []"
  shows "hierarchy_parents g c = [(Entity, c), b, a]
       \<and> get_entity_hierarchy g c
           = Inr \<lparr>entity_name = node_prop g (Entity, c) ''name'',
                  parents = [summary g (Entity, c), summary g b, summary g a],
                  children = [summary g (Entity, c)]\<rparr>"
proof -
  have p: "hierarchy_parents g c = [(Entity, c), b, a]"
    unfolding hierarchy_parents_def using assms(2,3,4) by (rule var_expand_chain)
  have "filter (\<lambda>e. fst e = (Entity, c)) (map swap_pair (reports_to_pairs g)) = []"
    by (simp add: filter_fst_swap assms(5))
  then have ch: "hierarchy_children g c = [(Entity, c)]"
    unfolding hierarchy_children_def by (rule var_expand_leaf)
  show ?thesis
    by (simp add: get_entity_hierarchy_def assms(1) p ch)
qed

theorem hierarchy_parents_start_with_entity_witness:
  "(Entity, ''C'') \<in> set (node_keys (gr chain_state))
   \<and> map snd (filter (\<lambda>e. fst e = (Entity, ''C'')) (reports_to_pairs (gr chain_state)))
       = [(Entity, ''B'')]
   \<and> map snd (filter (\<lambda>e. fst e = (Entity, ''B'')) (reports_to_pairs (gr chain_state)))
       = [(Entity, ''A'')]
   \<and> filter (\<lambda>e. fst e = (Entity, ''A'')) (reports_to_pairs (gr chain_state)) = []
   \<and> filter (\<lambda>e. snd e = (Entity, ''C'')) (reports_to_pairs (gr chain_state)) = []
   \<and> hierarchy_parents (gr chain_state) ''C'' = [(Entity, ''C''), (Entity, ''B''), (Entity, ''A'')]"
proof -
  have h1: "(Entity, ''C'') \<in> set (node_keys (gr chain_state))"
    by (simp add: chain_nodes)
  have h2: "map snd (filter (\<lambda>e. fst e = (Entity, ''C'')) (reports_to_pairs (gr chain_state)))
       = [(Entity, ''B'')]"
    by (simp add: chain_pairs)
  have h3: "map snd (filter (\<lambda>e. fst e = (Entity, ''B'')) (reports_to_pairs (gr chain_state)))
       = [(Entity, ''A'')]"
    by (simp add: chain_pairs)
  have h4: "filter (\<lambda>e. fst e = (Entity, ''A'')) (reports_to_pairs (gr chain_state)) = []"
    by (simp add: chain_pairs)
  have h5: "filter (\<lambda>e. snd e = (Entity, ''C'')) (reports_to_pairs (gr chain_state)) = []"
    by (simp add: chain_pairs)
  show ?thesis
    using h1 h2 h3 h4 h5 hierarchy_parents_start_with_entity[OF h1 h2 h3 h4 h5]
    by blast
qed

text \<open>
  Claim C3 as stated fails: after importing the chain A, B (reports to A), C (reports to
  B), the hierarchy of C has the parents C, B, A, not B, A.
\<close>

theorem hierarchy_of_chain_end:
  "hierarchy_parents (gr chain_state) ''C'' = [(Entity, ''C''), (Entity, ''B''), (Entity, ''A'')]
   \<and> parent_ids (get_entity_hierarchy (gr chain_state) ''C'')
       = Inr [Some (VStr ''C''), Some (VStr ''B''), Some (VStr ''A'')]
   \<and> parent_ids (get_entity_hierarchy (gr chain_state) ''C'')
       \<noteq> Inr [Some (VStr ''B''), Some (VStr ''A'')]"
proof -
  have cb: "map snd (filter (\<lambda>e. fst e = (Entity, ''C'')) (reports_to_pairs (gr chain_state)))
       = [(Entity, ''B'')]"
    by (simp add: chain_pairs)
  have ba: "map snd (filter (\<lambda>e. fst e = (Entity, ''B'')) (reports_to_pairs (gr chain_state)))
       = [(Entity, ''A'')]"
    by (simp add: chain_pairs)
  have top: "filter (\<lambda>e. fst e = (Entity, ''A'')) (reports_to_pairs (gr chain_state)) = []"
    by (simp add: chain_pairs)
  have p: "hierarchy_parents (gr chain_state) ''C''
      = [(Entity, ''C''), (Entity, ''B''), (Entity, ''A'')]"
    unfolding hierarchy_parents_def using cb ba top by (rule var_expand_chain)
  have "parent_ids (get_entity_hierarchy (gr chain_state) ''C'')
       = Inr [Some (VStr ''C''), Some (VStr ''B''), Some (VStr ''A'')]"
    by (simp add: parent_ids_def get_entity_hierarchy_def chain_nodes p summary_def chain_ids)
  with p show ?thesis by simp
qed

section \<open>C9: the ranking of the most connected nodes\<close>


lemma sorted_same_mset:
  fixes xs ys :: "int list"
  assumes "sorted xs" and "sorted ys" and "mset xs = mset ys"
  shows "xs = ys"
proof -
  have "sort ys = xs"
    using assms(3,1) by (rule properties_for_sort)
  moreover have "sort ys = ys"
    using assms(2) by (rule sorted_sort_id)
  ultimately show ?thesis by simp
qed

lemma keys_sort_key_perm:
  fixes k :: "'a \<Rightarrow> int"
  assumes "mset xs = mset ys"
  shows "map k (sort_key k xs) = map k (sort_key k ys)"
proof (rule sorted_same_mset)
  show "sorted (map k (sort_key k xs))" "sorted (map k (sort_key k ys))"
    by simp_all
  show "mset (map k (sort_key k xs)) = mset (map k (sort_key k ys))"
    by (simp add: assms)
qed

lemma neg_keys_eq:
  assumes "map (\<lambda>n. - int (f n)) xs = map (\<lambda>n. - int (f n)) ys"
  shows "map f xs = map f ys"
proof -
  have "map (\<lambda>z. nat (- z)) (map (\<lambda>n. - int (f n)) zs) = map f zs" for zs
    by (induction zs) simp_all
  with assms show ?thesis by metis
qed

lemma ranked_keys_same:
  assumes "distinct s1" and "distinct s2" and "set s1 = set s2"
  shows "map (degree g) (ranked s1 f g) = map (degree g) (ranked s2 f g)"
proof -
  let ?k = "\<lambda>n. - int (degree g n)"
  let ?x1 = "filter (\<lambda>n. degree g n > 0) (filter (label_filter f) s1)"
  let ?x2 = "filter (\<lambda>n. degree g n > 0) (filter (label_filter f) s2)"
  have "mset s1 = mset s2"
    using assms by (simp add: set_eq_iff_mset_eq_distinct)
  then have "mset ?x1 = mset ?x2"
    by simp
  then have "map ?k (sort_key ?k ?x1) = map ?k (sort_key ?k ?x2)"
    by (rule keys_sort_key_perm)
  then have "map (degree g) (sort_key ?k ?x1) = map (degree g) (sort_key ?k ?x2)"
    by (rule neg_keys_eq)
  then show ?thesis
    by (simp only: ranked_def)
qed

lemma set_ranked:
  "set (ranked s f g) = {n \<in> set s. label_filter f n \<and> degree g n > 0}"
  by (auto simp: ranked_def)

lemma ranked_desc: "sorted_wrt (\<lambda>a b. degree g b \<le> degree g a) (ranked s f g)"
proof -
  have "sorted (map (\<lambda>n. - int (degree g n)) (ranked s f g))"
    unfolding ranked_def by (rule sorted_sort_key)
  then show ?thesis
    by (simp add: sorted_map)
qed


lemma length_filter_or:
  "length (filter (\<lambda>k. A k \<or> B k) xs)
     = length (filter A xs) + length (filter (\<lambda>k. B k \<and> \<not> A k) xs)"
  by (induction xs) auto

lemma degree_in_out:
  "degree g n = length (filter (\<lambda>k. fst (snd k) = n) (rel_keys g))
              + length (filter (\<lambda>k. snd (snd k) = n \<and> fst (snd k) \<noteq> n) (rel_keys g))"
  unfolding degree_def by (rule length_filter_or)

lemma ranked_same_if_no_ties:
  assumes "distinct s1" and "distinct s2" and "set s1 = set s2"
    and "inj_on (degree g) {n \<in> set s1. label_filter f n \<and> 0 < degree g n}"
  shows "ranked s1 f g = ranked s2 f g"
proof -
  have "set (ranked s1 f g) \<union> set (ranked s2 f g) = {n \<in> set s1. label_filter f n \<and> 0 < degree g n}"
    using assms(3) by (auto simp: set_ranked)
  then have "inj_on (degree g) (set (ranked s1 f g) \<union> set (ranked s2 f g))"
    using assms(4) by simp
  moreover have "map (degree g) (ranked s1 f g) = map (degree g) (ranked s2 f g)"
    using assms(1,2,3) by (rule ranked_keys_same)
  ultimately show ?thesis
    by (simp add: inj_on_map_eq_map)
qed

lemma connections_row: "mc_connections (connected_row_of g n) = degree g n"
  by (simp add: connected_row_of_def)

text \<open>
  Claim C9, amended. For a fixed store and any two enumerations of its nodes: the result
  has at most 10 rows, is ordered by descending connection count, holds only nodes with
  a positive count (of those that pass the label filter), and is the first 10 of the
  ranking of all such nodes; a count is the number of relationships leaving the node
  plus the number arriving at it from other nodes. The sequence of counts is the same
  for both enumerations, and when no two ranked nodes have the same count the two
  results are identical. Among nodes with equal counts the order is the engine's
  enumeration order: the statement has no tie-break.
\<close>

theorem most_connected_order:
  assumes "distinct s1" and "distinct s2"
    and "set s1 = set (node_keys g)" and "set s2 = set (node_keys g)"
  shows "length (most_connected s1 f g) \<le> 10
       \<and> sorted_wrt (\<lambda>a b. mc_connections b \<le> mc_connections a) (most_connected s1 f g)
       \<and> (\<forall>r \<in> set (most_connected s1 f g). 0 < mc_connections r)
       \<and> most_connected s1 f g = map (connected_row_of g) (take 10 (ranked s1 f g))
       \<and> set (ranked s1 f g) = {n \<in> set (node_keys g). label_filter f n \<and> 0 < degree g n}
       \<and> sorted_wrt (\<lambda>a b. degree g b \<le> degree g a) (ranked s1 f g)
       \<and> (\<forall>n. mc_connections (connected_row_of g n)
              = length (filter (\<lambda>k. fst (snd k) = n) (rel_keys g))
                + length (filter (\<lambda>k. snd (snd k) = n \<and> fst (snd k) \<noteq> n) (rel_keys g)))
       \<and> map mc_connections (most_connected s1 f g) = map mc_connections (most_connected s2 f g)
       \<and> (inj_on (degree g) {n \<in> set (node_keys g). label_filter f n \<and> 0 < degree g n}
            \<longrightarrow> most_connected s1 f g = most_connected s2 f g)"
proof -
  have s12: "set s1 = set s2"
    using assms(3,4) by simp
  have a: "length (most_connected s1 f g) \<le> 10"
    by (simp add: most_connected_def)
  have d: "sorted_wrt (\<lambda>a b. degree g b \<le> degree g a) (take 10 (ranked s1 f g))"
    using ranked_desc by (rule sorted_wrt_take)
  have b: "sorted_wrt (\<lambda>a b. mc_connections b \<le> mc_connections a) (most_connected s1 f g)"
    using d by (simp add: most_connected_def sorted_wrt_map connections_row)
  have c: "\<forall>r \<in> set (most_connected s1 f g). 0 < mc_connections r"
  proof
    fix r assume "r \<in> set (most_connected s1 f g)"
    then obtain n where n: "n \<in> set (take 10 (ranked s1 f g))" and r: "r = connected_row_of g n"
      by (auto simp: most_connected_def)
    from n have "n \<in> set (ranked s1 f g)"
      by (rule in_set_takeD)
    then have "0 < degree g n"
      by (simp add: set_ranked)
    then show "0 < mc_connections r"
      by (simp add: r connections_row)
  qed
  have e: "set (ranked s1 f g) = {n \<in> set (node_keys g). label_filter f n \<and> 0 < degree g n}"
    by (simp add: set_ranked assms(3))
  have k: "map mc_connections (most_connected s1 f g) = map mc_connections (most_connected s2 f g)"
  proof -
    have "map mc_connections (most_connected s f g) = take 10 (map (degree g) (ranked s f g))" for s
      by (simp add: most_connected_def connections_row comp_def take_map)
    then show ?thesis
      using ranked_keys_same[OF assms(1,2) s12, of g f] by simp
  qed
  have i: "most_connected s1 f g = most_connected s2 f g"
    if "inj_on (degree g) {n \<in> set (node_keys g). label_filter f n \<and> 0 < degree g n}"
  proof -
    from that have "inj_on (degree g) {n \<in> set s1. label_filter f n \<and> 0 < degree g n}"
      by (simp add: assms(3))
    with assms(1,2) s12 have "ranked s1 f g = ranked s2 f g"
      by (rule ranked_same_if_no_ties)
    then show ?thesis
      by (simp add: most_connected_def)
  qed
  have q: "\<forall>n. mc_connections (connected_row_of g n)
              = length (filter (\<lambda>k. fst (snd k) = n) (rel_keys g))
                + length (filter (\<lambda>k. snd (snd k) = n \<and> fst (snd k) \<noteq> n) (rel_keys g))"
    by (simp add: connections_row degree_in_out)
  have m: "most_connected s1 f g = map (connected_row_of g) (take 10 (ranked s1 f g))"
    by (rule most_connected_def)
  from a b c m e ranked_desc[of g s1 f] q k i show ?thesis
    by blast
qed


lemma pair_rels: "rel_keys (gr pair_state) = [(REPORTS_TO, (Entity, ''B''), (Entity, ''A''))]"
  unfolding pair_state_def rel_keys_import_entities
  by (simp add: chain_row_def entity_keys_def policy_keys_def all_policies_def
        row_policies_def hierarchy_relationships_def alignments_def edge_list_def add_key_def
        state0_def empty_graph_def node_keys_def rel_keys_def)

lemma pair_nodes: "node_keys (gr pair_state) = [(Entity, ''A''), (Entity, ''B'')]"
  unfolding pair_state_def node_keys_import_entities
  by (simp add: chain_row_def entity_keys_def policy_keys_def all_policies_def
        row_policies_def add_key_def state0_def empty_graph_def node_keys_def)

lemma pair_names:
  "node_prop (gr pair_state) (Entity, ''A'') ''name'' = Some (VStr ''A'')"
  "node_prop (gr pair_state) (Entity, ''B'') ''name'' = Some (VStr ''B'')"
  unfolding pair_state_def node_prop_def node_props_def nodes_import_entities
  by (simp_all add: chain_row_def all_policies_def row_policies_def
        create_policy_query_def query_simple_def merge_node_def node_keys_def entity_set_def
        stamp_def state0_def empty_graph_def)

lemma pair_degrees:
  "degree (gr pair_state) (Entity, ''A'') = 1" "degree (gr pair_state) (Entity, ''B'') = 1"
  by (simp_all add: degree_def pair_rels)

lemma pair_rows:
  "connected_row_of (gr pair_state) (Entity, ''A'')
     = \<lparr>mc_name = Some (VStr ''A''), mc_type = ''Entity'', mc_connections = 1\<rparr>"
  "connected_row_of (gr pair_state) (Entity, ''B'')
     = \<lparr>mc_name = Some (VStr ''B''), mc_type = ''Entity'', mc_connections = 1\<rparr>"
  by (simp_all add: connected_row_of_def pair_names pair_degrees)

text \<open>
  Claim C9 as stated fails: the statement does not determine the order of rows with equal
  counts. In the store with the entities A and B and one relationship between them, both
  have one connection; enumerated as A, B the result lists A first, enumerated as B, A it
  lists B first.
\<close>

theorem most_connected_depends_on_scan_order:
  "set [(Entity, ''A''), (Entity, ''B'')] = set (node_keys (gr pair_state))
   \<and> set [(Entity, ''B''), (Entity, ''A'')] = set (node_keys (gr pair_state))
   \<and> most_connected [(Entity, ''A''), (Entity, ''B'')] None (gr pair_state)
       = [\<lparr>mc_name = Some (VStr ''A''), mc_type = ''Entity'', mc_connections = 1\<rparr>,
          \<lparr>mc_name = Some (VStr ''B''), mc_type = ''Entity'', mc_connections = 1\<rparr>]
   \<and> most_connected [(Entity, ''B''), (Entity, ''A'')] None (gr pair_state)
       = [\<lparr>mc_name = Some (VStr ''B''), mc_type = ''Entity'', mc_connections = 1\<rparr>,
          \<lparr>mc_name = Some (VStr ''A''), mc_type = ''Entity'', mc_connections = 1\<rparr>]
   \<and> most_connected [(Entity, ''A''), (Entity, ''B'')] None (gr pair_state)
       \<noteq> most_connected [(Entity, ''B''), (Entity, ''A'')] None (gr pair_state)"
proof -
  have r1: "ranked [(Entity, ''A''), (Entity, ''B'')] None (gr pair_state)
      = [(Entity, ''A''), (Entity, ''B'')]"
    by (simp add: ranked_def pair_degrees)
  have r2: "ranked [(Entity, ''B''), (Entity, ''A'')] None (gr pair_state)
      = [(Entity, ''B''), (Entity, ''A'')]"
    by (simp add: ranked_def pair_degrees)
  show ?thesis
    by (simp add: most_connected_def r1 r2 pair_rows pair_nodes insert_commute)
qed

theorem most_connected_order_witness:
  "distinct [(Entity, ''A''), (Entity, ''B'')] \<and> distinct [(Entity, ''B''), (Entity, ''A'')]
   \<and> set [(Entity, ''A''), (Entity, ''B'')] = set (node_keys (gr pair_state))
   \<and> set [(Entity, ''B''), (Entity, ''A'')] = set (node_keys (gr pair_state))
   \<and> length (most_connected [(Entity, ''A''), (Entity, ''B'')] None (gr pair_state)) \<le> 10
   \<and> map mc_connections (most_connected [(Entity, ''A''), (Entity, ''B'')] None (gr pair_state))
       = map mc_connections (most_connected [(Entity, ''B''), (Entity, ''A'')] None (gr pair_state))"
proof -
  have h1: "distinct [(Entity, ''A''), (Entity, ''B'')]" and h2: "distinct [(Entity, ''B''), (Entity, ''A'')]"
    by simp_all
  have h3: "set [(Entity, ''A''), (Entity, ''B'')] = set (node_keys (gr pair_state))"
    by (simp add: pair_nodes)
  have h4: "set [(Entity, ''B''), (Entity, ''A'')] = set (node_keys (gr pair_state))"
    by (simp add: pair_nodes insert_commute)
  show ?thesis
    using h1 h2 h3 h4 most_connected_order[OF h1 h2 h3 h4, of None]
    by blast
qed

section \<open>C8: indexing the same ids again\<close>


lemma collection_add_known:
  assumes "batch \<noteq> []" and "distinct (map doc_id batch)"
    and "set (map doc_id batch) \<subseteq> set (collection_ids c)"
  shows "collection_add batch c = Inr c"
proof -
  have "filter (\<lambda>d. doc_id d \<notin> set (collection_ids c)) batch = []"
    using assms(3) by (auto simp: filter_empty_conv)
  with assms(1,2) show ?thesis
    by (simp add: collection_add_def)
qed

lemma collection_add_ids:
  assumes "collection_add batch c = Inr c1"
  shows "set (collection_ids c1) = set (collection_ids c) \<union> set (map doc_id batch)"
    and "batch \<noteq> []" and "distinct (map doc_id batch)"
proof -
  have c1: "c1 = c @ filter (\<lambda>d. doc_id d \<notin> set (collection_ids c)) batch"
    and b: "batch \<noteq> []" and d: "distinct (map doc_id batch)"
    using assms by (auto simp: collection_add_def split: if_splits)
  have "doc_id ` {x \<in> set batch. doc_id x \<notin> set (collection_ids c)} \<union> set (collection_ids c)
      = doc_id ` set batch \<union> set (collection_ids c)"
    by blast
  then show "set (collection_ids c1) = set (collection_ids c) \<union> set (map doc_id batch)"
    unfolding c1 by (simp add: collection_ids_def Un_commute)
  from b show "batch \<noteq> []" .
  from d show "distinct (map doc_id batch)" .
qed

lemma collection_add_distinct:
  assumes "collection_add batch c = Inr c1" and "distinct (collection_ids c)"
  shows "distinct (collection_ids c1)"
proof -
  have c1: "c1 = c @ filter (\<lambda>d. doc_id d \<notin> set (collection_ids c)) batch"
    and d: "distinct (map doc_id batch)"
    using assms(1) by (auto simp: collection_add_def split: if_splits)
  have f: "distinct (map doc_id (filter (\<lambda>d. doc_id d \<notin> set (collection_ids c)) batch))"
    using d by (rule distinct_map_filter)
  have e: "doc_id ` set c \<inter> doc_id ` {x \<in> set batch. doc_id x \<notin> doc_id ` set c} = {}"
    by (auto simp: image_iff)
  show ?thesis
    using assms(2) f e unfolding c1 collection_ids_def by simp
qed

lemma collection_add_keeps:
  assumes "collection_add batch c = Inr c1" and "collection_get c i = Some d"
  shows "collection_get c1 i = Some d"
proof -
  have c1: "c1 = c @ filter (\<lambda>d. doc_id d \<notin> set (collection_ids c)) batch"
    using assms(1) by (auto simp: collection_add_def split: if_splits)
  have "find P (xs @ ys) = Some d" if "find P xs = Some d" for P xs ys
    using that by (induction xs) (auto split: if_splits)
  then show ?thesis
    using assms(2) by (simp add: c1 collection_get_def)
qed

lemma distinct_prefixed: "distinct (map (\<lambda>r. p @ f r) xs) = distinct (map f xs)"
  by (induction xs) auto

lemma entity_record_ids:
  "map doc_id (map (\<lambda>(k, row). entity_record (now k) row) (enumerate n df))
     = map (\<lambda>row. ''entity_'' @ ent_entity_id row) df"
  by (induction df arbitrary: n) (simp_all add: entity_record_def)

lemma person_record_ids:
  "map doc_id (map (\<lambda>(k, row). person_record (now k) row) (enumerate n df))
     = map (\<lambda>row. ''person_'' @ per_person_id row) df"
  by (induction df arbitrary: n) (simp_all add: person_record_def)

lemma reindex_entities_unchanged:
  assumes "index_entities now df c = Inr c1"
    and "df' \<noteq> []" and "distinct (map ent_entity_id df')"
    and "set (map ent_entity_id df') \<subseteq> set (map ent_entity_id df)"
  shows "index_entities now' df' c1 = Inr c1"
  unfolding index_entities_def
proof (rule collection_add_known)
  show "map (\<lambda>(k, row). entity_record (now' k) row) (enumerate 0 df') \<noteq> []"
    using assms(2) by (simp add: enumerate_eq_zip)
  show "distinct (map doc_id (map (\<lambda>(k, row). entity_record (now' k) row) (enumerate 0 df')))"
    unfolding entity_record_ids distinct_prefixed using assms(3) .
  have "set (collection_ids c1) = set (collection_ids c)
      \<union> set (map doc_id (map (\<lambda>(k, row). entity_record (now k) row) (enumerate 0 df)))"
    using assms(1) unfolding index_entities_def by (rule collection_add_ids)
  then show "set (map doc_id (map (\<lambda>(k, row). entity_record (now' k) row) (enumerate 0 df')))
      \<subseteq> set (collection_ids c1)"
    unfolding entity_record_ids using assms(4) by auto
qed

lemma reindex_people_unchanged:
  assumes "index_people now df c = Inr c1"
    and "df' \<noteq> []" and "distinct (map per_person_id df')"
    and "set (map per_person_id df') \<subseteq> set (map per_person_id df)"
  shows "index_people now' df' c1 = Inr c1"
  unfolding index_people_def
proof (rule collection_add_known)
  show "map (\<lambda>(k, row). person_record (now' k) row) (enumerate 0 df') \<noteq> []"
    using assms(2) by (simp add: enumerate_eq_zip)
  show "distinct (map doc_id (map (\<lambda>(k, row). person_record (now' k) row) (enumerate 0 df')))"
    unfolding person_record_ids distinct_prefixed using assms(3) .
  have "set (collection_ids c1) = set (collection_ids c)
      \<union> set (map doc_id (map (\<lambda>(k, row). person_record (now k) row) (enumerate 0 df)))"
    using assms(1) unfolding index_people_def by (rule collection_add_ids)
  then show "set (map doc_id (map (\<lambda>(k, row). person_record (now' k) row) (enumerate 0 df')))
      \<subseteq> set (collection_ids c1)"
    unfolding person_record_ids using assms(4) by auto
qed

lemma index_entities_ok_batch:
  assumes "index_entities now df c = Inr c1"
  shows "df \<noteq> []" and "distinct (map ent_entity_id df)"
proof -
  have b: "map (\<lambda>(k, row). entity_record (now k) row) (enumerate 0 df) \<noteq> []"
    and d: "distinct (map doc_id (map (\<lambda>(k, row). entity_record (now k) row) (enumerate 0 df)))"
    using collection_add_ids(2,3)[OF assms[unfolded index_entities_def]] by simp_all
  from b show "df \<noteq> []" by auto
  from d show "distinct (map ent_entity_id df)"
    unfolding entity_record_ids distinct_prefixed .
qed

lemma index_people_ok_batch:
  assumes "index_people now df c = Inr c1"
  shows "df \<noteq> []" and "distinct (map per_person_id df)"
proof -
  have b: "map (\<lambda>(k, row). person_record (now k) row) (enumerate 0 df) \<noteq> []"
    and d: "distinct (map doc_id (map (\<lambda>(k, row). person_record (now k) row) (enumerate 0 df)))"
    using collection_add_ids(2,3)[OF assms[unfolded index_people_def]] by simp_all
  from b show "df \<noteq> []" by auto
  from d show "distinct (map per_person_id df)"
    unfolding person_record_ids distinct_prefixed .
qed


lemma min001_fields:
  "ent_entity_id min001 = ''MIN001''" "ent_name min001 = Some ''Ministry of Digital''"
  "ent_entity_id min001_renamed = ''MIN001''"
  "ent_name min001_renamed = Some ''Ministry of Digital Affairs''"
  by (simp_all add: min001_def min001_renamed_def sample_entities_def)

lemma first_index:
  "index_entities id [min001] [] = Inr [entity_record 0 min001]"
  by (simp add: index_entities_def collection_add_def collection_ids_def)

lemma second_index:
  "index_entities later [r] [entity_record 0 min001] = Inr [entity_record 0 min001]"
  if "ent_entity_id r = ''MIN001''"
  using that
  by (simp add: index_entities_def collection_add_def collection_ids_def entity_record_def
        min001_fields)

lemma twice_same: "index_entities_twice id later [min001] [min001] [] = Inr [entity_record 0 min001]"
  by (simp add: index_entities_twice_def first_index second_index min001_fields)

lemma twice_renamed:
  "index_entities_twice id later [min001] [min001_renamed] [] = Inr [entity_record 0 min001]"
  by (simp add: index_entities_twice_def first_index second_index min001_fields)

lemma doc_differs: "create_entity_document min001 \<noteq> create_entity_document min001_renamed"
  by (simp add: create_entity_document_def min001_def min001_renamed_def sample_entities_def)

text \<open>
  Claim C8 as stated fails: re-indexing does not overwrite. After indexing the entity
  MIN001 at time 0 and again at time 100, the stored record still carries the time 0,
  not the time the second call would have written; after re-indexing it with a new
  name, the stored document is still the one built from the old name. The count is 1.
\<close>

theorem reindexing_does_not_overwrite:
  "indexed_at (index_entities_twice id later [min001] [min001] []) ''entity_MIN001''
     = Some (MTime 0)
   \<and> indexed_at (index_entities_twice id later [min001] [min001] []) ''entity_MIN001''
     \<noteq> map_of (doc_meta (entity_record (later 0) min001)) ''indexed_at''
   \<and> indexed_text (index_entities_twice id later [min001] [min001_renamed] []) ''entity_MIN001''
     = Some (create_entity_document min001)
   \<and> indexed_text (index_entities_twice id later [min001] [min001_renamed] []) ''entity_MIN001''
     \<noteq> Some (create_entity_document min001_renamed)
   \<and> count_of (index_entities_twice id later [min001] [min001_renamed] []) = Some 1"
proof -
  have a: "indexed_at (Inr [entity_record 0 min001]) ''entity_MIN001'' = Some (MTime 0)"
    by (simp add: indexed_at_def collection_get_def entity_record_def min001_fields)
  have b: "map_of (doc_meta (entity_record (later 0) min001)) ''indexed_at'' = Some (MTime 100)"
    by (simp add: entity_record_def later_def)
  have c: "indexed_text (Inr [entity_record 0 min001]) ''entity_MIN001''
      = Some (create_entity_document min001)"
    by (simp add: indexed_text_def collection_get_def entity_record_def min001_fields)
  have d: "count_of (Inr [entity_record 0 min001]) = Some 1"
    by (simp add: count_of_def collection_count_def)
  show ?thesis
    unfolding twice_same twice_renamed a b c d using doc_differs by simp
qed

text \<open>
  Claim C8, amended. When indexing a batch of entities (people) succeeds, indexing the
  same batch again, at any later time, returns the collection unchanged: no record is
  added, none is replaced, and the count is the same as after the first call. The same
  holds for any non-empty batch of updated rows whose ids are pairwise distinct and
  occur in the first batch. Records that were in the collection before stay as they
  were, and a collection without duplicate ids stays so.
\<close>

theorem reindexing_keeps_existing:
  "(index_entities now df c = Inr c1 \<longrightarrow>
      index_entities now' df c1 = Inr c1
    \<and> count_of (index_entities_twice now now' df df c) = count_of (index_entities now df c)
    \<and> (\<forall>df'. df' \<noteq> [] \<and> distinct (map ent_entity_id df')
              \<and> set (map ent_entity_id df') \<subseteq> set (map ent_entity_id df)
              \<longrightarrow> index_entities now' df' c1 = Inr c1)
    \<and> (\<forall>i d. collection_get c i = Some d \<longrightarrow> collection_get c1 i = Some d)
    \<and> (distinct (collection_ids c) \<longrightarrow> distinct (collection_ids c1)))
   \<and> (index_people now pf p = Inr p1 \<longrightarrow>
      index_people now' pf p1 = Inr p1
    \<and> (\<forall>pf'. pf' \<noteq> [] \<and> distinct (map per_person_id pf')
              \<and> set (map per_person_id pf') \<subseteq> set (map per_person_id pf)
              \<longrightarrow> index_people now' pf' p1 = Inr p1)
    \<and> (\<forall>i d. collection_get p i = Some d \<longrightarrow> collection_get p1 i = Some d)
    \<and> (distinct (collection_ids p) \<longrightarrow> distinct (collection_ids p1)))"
proof -
  have ent: "index_entities now' df c1 = Inr c1
    \<and> count_of (index_entities_twice now now' df df c) = count_of (index_entities now df c)
    \<and> (\<forall>df'. df' \<noteq> [] \<and> distinct (map ent_entity_id df')
              \<and> set (map ent_entity_id df') \<subseteq> set (map ent_entity_id df)
              \<longrightarrow> index_entities now' df' c1 = Inr c1)
    \<and> (\<forall>i d. collection_get c i = Some d \<longrightarrow> collection_get c1 i = Some d)
    \<and> (distinct (collection_ids c) \<longrightarrow> distinct (collection_ids c1))"
    if h: "index_entities now df c = Inr c1"
  proof -
    have r: "index_entities now' df' c1 = Inr c1"
      if "df' \<noteq> []" "distinct (map ent_entity_id df')"
        "set (map ent_entity_id df') \<subseteq> set (map ent_entity_id df)" for df'
      using h that by (rule reindex_entities_unchanged)
    have same: "index_entities now' df c1 = Inr c1"
      using index_entities_ok_batch[OF h] by (intro r) simp_all
    have cnt: "count_of (index_entities_twice now now' df df c) = count_of (index_entities now df c)"
      by (simp add: index_entities_twice_def h same)
    have keep: "collection_get c1 i = Some d" if "collection_get c i = Some d" for i d
      using h[unfolded index_entities_def] that by (rule collection_add_keeps)
    have dist: "distinct (collection_ids c1)" if "distinct (collection_ids c)"
      using h[unfolded index_entities_def] that by (rule collection_add_distinct)
    from same cnt r keep dist show ?thesis by blast
  qed
  have per: "index_people now' pf p1 = Inr p1
    \<and> (\<forall>pf'. pf' \<noteq> [] \<and> distinct (map per_person_id pf')
              \<and> set (map per_person_id pf') \<subseteq> set (map per_person_id pf)
              \<longrightarrow> index_people now' pf' p1 = Inr p1)
    \<and> (\<forall>i d. collection_get p i = Some d \<longrightarrow> collection_get p1 i = Some d)
    \<and> (distinct (collection_ids p) \<longrightarrow> distinct (collection_ids p1))"
    if h: "index_people now pf p = Inr p1"
  proof -
    have r: "index_people now' pf' p1 = Inr p1"
      if "pf' \<noteq> []" "distinct (map per_person_id pf')"
        "set (map per_person_id pf') \<subseteq> set (map per_person_id pf)" for pf'
      using h that by (rule reindex_people_unchanged)
    have same: "index_people now' pf p1 = Inr p1"
      using index_people_ok_batch[OF h] by (intro r) simp_all
    have keep: "collection_get p1 i = Some d" if "collection_get p i = Some d" for i d
      using h[unfolded index_people_def] that by (rule collection_add_keeps)
    have dist: "distinct (collection_ids p1)" if "distinct (collection_ids p)"
      using h[unfolded index_people_def] that by (rule collection_add_distinct)
    from same r keep dist show ?thesis by blast
  qed
  from ent per show ?thesis by blast
qed

lemma first_index_people: "index_people id sample_people [] = Inr sample_people_records"
  by (simp add: index_people_def collection_add_def collection_ids_def sample_people_records_def
        sample_people_def person_record_def enumerate_eq_zip upt_rec)

theorem reindexing_keeps_existing_witness:
  "index_entities id [min001] [] = Inr [entity_record 0 min001]
   \<and> index_people id sample_people [] = Inr sample_people_records
   \<and> index_entities later [min001] [entity_record 0 min001] = Inr [entity_record 0 min001]
   \<and> count_of (index_entities_twice id later [min001] [min001] [])
       = count_of (index_entities id [min001] [])
   \<and> index_people later sample_people sample_people_records = Inr sample_people_records"
  using first_index first_index_people
    reindexing_keeps_existing[of id "[min001]" "[]" "[entity_record 0 min001]" later
      sample_people "[]" sample_people_records]
  by blast

section \<open>C10: hybrid search on a query without tokens\<close>


lemma split_ws_from_empty_iff:
  "split_ws_from cur s = [] \<longleftrightarrow> cur = [] \<and> (\<forall>c \<in> set s. isspace c)"
  by (induction s arbitrary: cur) auto

lemma isspace_lower_char: "isspace (lower_char c) = isspace c"
proof -
  have "of_char c < (256 :: nat)"
    by (simp add: of_char_def)
  then show ?thesis
    by (auto simp: isspace_def lower_char_def Let_def)
qed

lemma terms_empty_iff: "terms q = [] \<longleftrightarrow> (\<forall>c \<in> set q. isspace c)"
  by (simp add: terms_def split_ws_def split_ws_from_empty_iff lower_def isspace_lower_char)


lemma score_all_no_terms:
  "score_all [] kb hits = (if hits = [] then Inr [] else Inl ZeroDivisionError)"
  by (cases hits) (auto simp: keyword_score_def)

lemma score_all_terms:
  assumes "terms query \<noteq> []"
  shows "score_all (terms query) kb hits
           = Inr (map (\<lambda>(cat, r). rank_hit kb cat r (overlap query (hit_document r))) hits)"
  using assms
  by (induction hits) (auto simp: keyword_score_def overlap_def)

lemma rank_hit_fields:
  "hybrid_score (rank_hit kb cat r ks) = (1 - kb) * hit_relevance_score r + kb * ks"
  "hit_relevance_score (rank_hit kb cat r ks) = hit_relevance_score r"
  "hit_document (rank_hit kb cat r ks) = hit_document r"
  by (simp_all add: rank_hit_def)

lemma sort_key_desc:
  fixes f :: "'a \<Rightarrow> rat"
  shows "sorted_wrt (\<lambda>a b. f b \<le> f a) (sort_key (\<lambda>h. - f h) xs)"
proof -
  have "sorted (map (\<lambda>h. - f h) (sort_key (\<lambda>h. - f h) xs))"
    by (rule sorted_sort_key)
  then show ?thesis
    by (simp add: sorted_map)
qed

text \<open>
  Claim C10, amended. A query has no token exactly when all its characters are
  whitespace. For such a query \<^verbatim>\<open>hybrid_search\<close> raises \<^verbatim>\<open>ZeroDivisionError\<close> if the
  semantic search returned at least one hit in some category, and returns the empty list
  if it returned none (the division is inside the loop over the hits). For a query with
  at least one token it returns at most \<open>n_results\<close> hits, ordered by descending hybrid
  score, where the hybrid score of a hit is (1 - keyword_boost) * relevance +
  keyword_boost * (number of distinct query tokens among the document's tokens / number
  of distinct query tokens).
\<close>

theorem hybrid_search_behaviour:
  "((\<forall>c \<in> set query. isspace c) \<and> tagged_hits (search_all query n) \<noteq> []
      \<longrightarrow> hybrid_search search_all query kb n = Inl ZeroDivisionError)
   \<and> ((\<forall>c \<in> set query. isspace c) \<and> tagged_hits (search_all query n) = []
      \<longrightarrow> hybrid_search search_all query kb n = Inr [])
   \<and> (\<not> (\<forall>c \<in> set query. isspace c)
      \<longrightarrow> (\<exists>out. hybrid_search search_all query kb n = Inr out
            \<and> length out \<le> n
            \<and> sorted_wrt (\<lambda>a b. hybrid_score b \<le> hybrid_score a) out
            \<and> (\<forall>h \<in> set out.
                  hybrid_score h
                    = (1 - kb) * hit_relevance_score h
                      + kb * (of_nat (length (filter (\<lambda>t. t \<in> set (terms (hit_document h)))
                                                (terms query)))
                              / of_nat (length (terms query))))))"
proof -
  have a: "hybrid_search search_all query kb n = Inl ZeroDivisionError"
    if "\<forall>c \<in> set query. isspace c" "tagged_hits (search_all query n) \<noteq> []"
  proof -
    from that(1) have "terms query = []"
      by (simp add: terms_empty_iff)
    with that(2) show ?thesis
      by (simp add: hybrid_search_def Let_def score_all_no_terms)
  qed
  have b: "hybrid_search search_all query kb n = Inr []"
    if "\<forall>c \<in> set query. isspace c" "tagged_hits (search_all query n) = []"
  proof -
    from that(1) have "terms query = []"
      by (simp add: terms_empty_iff)
    with that(2) show ?thesis
      by (simp add: hybrid_search_def Let_def score_all_no_terms)
  qed
  have c: "\<exists>out. hybrid_search search_all query kb n = Inr out
            \<and> length out \<le> n
            \<and> sorted_wrt (\<lambda>a b. hybrid_score b \<le> hybrid_score a) out
            \<and> (\<forall>h \<in> set out.
                  hybrid_score h
                    = (1 - kb) * hit_relevance_score h
                      + kb * (of_nat (length (filter (\<lambda>t. t \<in> set (terms (hit_document h)))
                                                (terms query)))
                              / of_nat (length (terms query))))"
    if "\<not> (\<forall>c \<in> set query. isspace c)"
  proof -
    from that have t: "terms query \<noteq> []"
      by (simp add: terms_empty_iff)
    let ?all = "map (\<lambda>(cat, r). rank_hit kb cat r (overlap query (hit_document r)))
                  (tagged_hits (search_all query n))"
    let ?out = "take n (sort_key (\<lambda>h. - hybrid_score h) ?all)"
    have r: "hybrid_search search_all query kb n = Inr ?out"
      by (simp add: hybrid_search_def Let_def score_all_terms[OF t])
    have l: "length ?out \<le> n"
      by simp
    have s: "sorted_wrt (\<lambda>a b. hybrid_score b \<le> hybrid_score a) ?out"
      using sort_key_desc by (rule sorted_wrt_take)
    have f: "hybrid_score h = (1 - kb) * hit_relevance_score h + kb * overlap query (hit_document h)"
      if "h \<in> set ?out" for h
    proof -
      from that have "h \<in> set (sort_key (\<lambda>h. - hybrid_score h) ?all)"
        by (rule in_set_takeD)
      then have "h \<in> set ?all"
        by simp
      then obtain cat r where "h = rank_hit kb cat r (overlap query (hit_document r))"
        by auto
      then show ?thesis
        by (simp add: rank_hit_fields)
    qed
    from r l s f show ?thesis
      unfolding overlap_def by blast
  qed
  from a b c show ?thesis by blast
qed


text \<open>
  Claim C10 as stated fails for a store without hits: with empty collections the empty
  query, and a query of blanks, return the empty list and raise nothing.
\<close>

theorem hybrid_search_empty_query_no_hits:
  "hybrid_search no_hits [] (3 / 10) 10 = Inr []
   \<and> hybrid_search no_hits [] (3 / 10) 10 \<noteq> Inl ZeroDivisionError
   \<and> hybrid_search no_hits ''  '' (3 / 10) 10 = Inr []"
proof -
  have "terms [] = []" "terms ''  '' = []"
    by (simp_all add: terms_empty_iff isspace_def)
  then show ?thesis
    by (simp add: hybrid_search_def Let_def no_hits_def tagged_hits_def)
qed

lemma hybrid_example:
  "hybrid_search one_hit ''MDEC agency'' (3 / 10) 10
     = Inr [rank_hit (3 / 10) ''entities'' mdec_hit (1 / 2)]
   \<and> hybrid_score (rank_hit (3 / 10) ''entities'' mdec_hit (1 / 2)) = 27 / 40"
  by code_simp

theorem hybrid_search_behaviour_witness:
  "list_all isspace ''  '' \<and> tagged_hits (one_hit ''  '' 10) \<noteq> []
   \<and> hybrid_search one_hit ''  '' (3 / 10) 10 = Inl ZeroDivisionError
   \<and> tagged_hits (no_hits ''  '' 10) = []
   \<and> hybrid_search no_hits ''  '' (3 / 10) 10 = Inr []
   \<and> list_ex (\<lambda>c. \<not> isspace c) ''mdec''
   \<and> (\<exists>out. hybrid_search one_hit ''mdec'' (3 / 10) 10 = Inr out \<and> length out \<le> 10)"
proof -
  have h1: "\<forall>c \<in> set ''  ''. isspace c"
    by (simp add: isspace_def)
  have h2: "tagged_hits (one_hit ''  '' 10) \<noteq> []"
    by (simp add: tagged_hits_def one_hit_def)
  have h3: "tagged_hits (no_hits ''  '' 10) = []"
    by (simp add: tagged_hits_def no_hits_def)
  have h4: "\<not> (\<forall>c \<in> set ''mdec''. isspace c)"
    by (simp add: isspace_def)
  have a: "hybrid_search one_hit ''  '' (3 / 10) 10 = Inl ZeroDivisionError"
    using h1 h2 hybrid_search_behaviour[of "''  ''" one_hit 10 "3 / 10"] by blast
  have b: "hybrid_search no_hits ''  '' (3 / 10) 10 = Inr []"
    using h1 h3 hybrid_search_behaviour[of "''  ''" no_hits 10 "3 / 10"] by blast
  have c: "\<exists>out. hybrid_search one_hit ''mdec'' (3 / 10) 10 = Inr out \<and> length out \<le> 10"
    using h4 hybrid_search_behaviour[of "''mdec''" one_hit 10 "3 / 10"] by blast
  have l1: "list_all isspace ''  ''"
    using h1 by (simp add: list_all_iff)
  have l4: "list_ex (\<lambda>c. \<not> isspace c) ''mdec''"
    using h4 by (simp add: list_ex_iff)
  from l1 h2 a h3 b l4 c show ?thesis
    by blast
qed

end
